theory Spec2Isabelle
  imports Main "HOL-Library.Sublist" "HOL-Library.Char_ord" "HOL-Library.List_Lexorder"
begin

section \<open>The NGINX configuration parser (playbooks/library/nginx\_config\_parser.py)\<close>

text \<open>
  A shallow embedding of the lexer, the brace balancer, the analyzer, the recursive-descent
  parser with its include worklist, and the two tree transforms. Strings are
  \<^typ>\<open>string\<close>; a character is a code point below 256. Python names that start with an
  underscore lose it (\<open>_parse\<close> is \<open>parse_block\<close>, \<open>_balance_braces\<close> is \<open>balance_braces\<close>).
\<close>

subsection \<open>Exceptions and generators\<close>

text \<open>
  The exception classes of the module carry \<open>(strerror, filename, lineno)\<close>. The other
  constructors are the Python built-in exceptions that the code can raise; \<open>OSError\<close>
  carries the path that could not be opened and the \<open>lineno\<close> attribute that the
  include resolver sets on it, \<open>FormatError\<close> is the \<open>TypeError\<close> or \<open>ValueError\<close> of a
  failed \<open>%\<close> string formatting.
\<close>

datatype exn =
    NgxParserSyntaxError string string nat
  | NgxParserDirectiveArgumentsError string string nat
  | NgxParserDirectiveContextError string string nat
  | NgxParserDirectiveUnknownError string string nat
  | StopIteration
  | RuntimeError
  | RecursionError
  | IndexError
  | UnboundLocalError
  | OSError string "nat option"
  | FormatError

text \<open>
  A generator is the list of the values it yields, in order, and the way it ends:
  \<open>None\<close> when it returns (its consumer sees the end of the iteration), \<open>Some e\<close> when
  it raises \<open>e\<close> after the last value.
\<close>

type_synonym 'a gen = "'a list \<times> exn option"

definition yield :: "'a \<Rightarrow> 'a gen \<Rightarrow> 'a gen" where
  "yield x g = (x # fst g, snd g)"

text \<open>
  \<open>fix_pep_479\<close>: the wrapper re-yields everything and turns a \<open>RuntimeError\<close> of the
  wrapped generator into a plain return. Under PEP 479 a \<open>StopIteration\<close> that escapes
  from \<open>next\<close> inside a generator body reaches the wrapper as that \<open>RuntimeError\<close>.
\<close>

definition fix_pep_479 :: "'a gen \<Rightarrow> 'a gen" where
  "fix_pep_479 g = (fst g, (case snd g of Some RuntimeError \<Rightarrow> None | r \<Rightarrow> r))"

subsection \<open>Lexer\<close>

definition backslash :: char where
  "backslash = CHR 0x5C"

definition newline :: char where
  "newline = CHR 0x0A"

text \<open>\<open>str.isspace\<close> on one character (code points below 256).\<close>

definition isspace_char :: "char \<Rightarrow> bool" where
  "isspace_char c = ((of_char c :: nat) \<in> {9, 10, 11, 12, 13, 28, 29, 30, 31, 32, 133, 160})"

definition isspace :: "string \<Rightarrow> bool" where
  "isspace s = (s \<noteq> [] \<and> list_all isspace_char s)"

definition endswith_newline :: "string \<Rightarrow> bool" where
  "endswith_newline s = (s \<noteq> [] \<and> last s = newline)"

text \<open>
  \<open>_iterescape\<close> before the decorator: a backslash is joined with the character after
  it; \<open>next(chars)\<close> at the end of the input raises inside the generator.
\<close>

fun iterescape_gen :: "string \<Rightarrow> string gen" where
  "iterescape_gen [] = ([], None)"
| "iterescape_gen (c # cs) =
     (if c = backslash
      then (case cs of
              [] \<Rightarrow> ([], Some RuntimeError)
            | d # ds \<Rightarrow> yield [c, d] (iterescape_gen ds))
      else yield [c] (iterescape_gen cs))"

definition iterescape :: "string \<Rightarrow> string gen" where
  "iterescape text = fix_pep_479 (iterescape_gen text)"

type_synonym item = "string \<times> nat"

fun iterlinecount :: "nat \<Rightarrow> string list \<Rightarrow> item list" where
  "iterlinecount line [] = []"
| "iterlinecount line (c # cs) =
     (let line' = (if endswith_newline c then line + 1 else line)
      in (c, line') # iterlinecount line' cs)"

type_synonym token = "string \<times> nat \<times> bool"

text \<open>
  The inner loops of \<open>_lex_file_object\<close>. Each returns \<open>None\<close> when \<open>next(it)\<close> finds
  the input exhausted.
\<close>

text \<open>\<open>while char.isspace(): char, line = next(it)\<close>, from the current item on.\<close>

fun skip_space :: "item list \<Rightarrow> (item \<times> item list) option" where
  "skip_space [] = None"
| "skip_space ((c, l) # its) =
     (if isspace c then skip_space its else Some ((c, l), its))"

text \<open>\<open>while not char.endswith("\n"): token = token + char; char, _ = next(it)\<close>.\<close>

fun read_comment :: "string \<Rightarrow> string \<Rightarrow> item list \<Rightarrow> (string \<times> item list) option" where
  "read_comment token c its =
     (if endswith_newline c then Some (token, its)
      else (case its of
              [] \<Rightarrow> None
            | (c', _) # its' \<Rightarrow> read_comment (token @ c) c' its'))"

text \<open>
  \<open>while token[-1] != "}" and not char.isspace(): token += char; char, line = next(it)\<close>.
  The token is not empty here: it ends in \<open>$\<close> when the loop is entered and only grows.
\<close>

fun read_expansion :: "string \<Rightarrow> item \<Rightarrow> item list \<Rightarrow> (string \<times> item \<times> item list) option" where
  "read_expansion token (c, l) its =
     (if last token \<noteq> CHR ''}'' \<and> \<not> isspace c
      then (case its of
              [] \<Rightarrow> None
            | i # its' \<Rightarrow> read_expansion (token @ c) i its')
      else Some (token, (c, l), its))"

text \<open>
  \<open>char, line = next(it)\<close> then
  \<open>while char != quote: token += quote if char == "\\" + quote else char; char, line = next(it)\<close>.
\<close>

fun read_quoted :: "string \<Rightarrow> string \<Rightarrow> item list \<Rightarrow> (string \<times> item list) option" where
  "read_quoted quote token [] = None"
| "read_quoted quote token ((c, l) # its) =
     (if c = quote then Some (token, its)
      else read_quoted quote (token @ (if c = backslash # quote then quote else c)) its)"

lemma skip_space_length:
  "skip_space its = Some (i, its') \<Longrightarrow> length its' < length its"
  by (induction its) (auto split: if_splits)

lemma read_comment_length:
  "read_comment token c its = Some (token', its') \<Longrightarrow> length its' \<le> length its"
proof (induction token c its rule: read_comment.induct)
  case (1 token c its)
  show ?case
  proof (cases "endswith_newline c")
    case True
    with "1.prems" show ?thesis by simp
  next
    case False
    show ?thesis
    proof (cases its)
      case Nil
      with False "1.prems" show ?thesis by simp
    next
      case (Cons i its'')
      obtain c' l' where i: "i = (c', l')" by (cases i)
      from False Cons i "1.prems"
      have "read_comment (token @ c) c' its'' = Some (token', its')" by simp
      with "1.IH" [OF False Cons [unfolded i] refl] have "length its' \<le> length its''" by simp
      with Cons show ?thesis by simp
    qed
  qed
qed

lemma read_expansion_length:
  "read_expansion token i its = Some (token', i', its') \<Longrightarrow> length its' \<le> length its"
proof (induction token i its rule: read_expansion.induct)
  case (1 token c l its)
  show ?case
  proof (cases "last token \<noteq> CHR ''}'' \<and> \<not> isspace c")
    case False
    with "1.prems" show ?thesis by auto
  next
    case True
    show ?thesis
    proof (cases its)
      case Nil
      with True "1.prems" show ?thesis by simp
    next
      case (Cons j its'')
      from True Cons "1.prems"
      have "read_expansion (token @ c) j its'' = Some (token', i', its')" by simp
      with "1.IH" [OF True Cons] have "length its' \<le> length its''" by simp
      with Cons show ?thesis by simp
    qed
  qed
qed

lemma read_quoted_length:
  "read_quoted quote token its = Some (token', its') \<Longrightarrow> length its' < length its"
proof (induction its arbitrary: token)
  case Nil
  then show ?case by simp
next
  case (Cons i its)
  obtain c l where i: "i = (c, l)" by (cases i)
  show ?case
  proof (cases "c = quote")
    case True
    with Cons.prems i show ?thesis by simp
  next
    case False
    with Cons.prems i
    have "read_quoted quote (token @ (if c = backslash # quote then quote else c)) its
            = Some (token', its')" by simp
    from Cons.IH [OF this] show ?thesis by simp
  qed
qed

declare read_comment.simps [simp del] read_expansion.simps [simp del]

text \<open>
  The body of \<open>_lex_file_object\<close>. \<open>lex_loop\<close> is the \<open>for char, line in it\<close> loop with
  its three variables; \<open>lex_char\<close> is the loop body from the comment test on, which the
  whitespace branch reaches with the first character after the whitespace.
  \<open>EXTERNAL_LEXERS\<close> is the empty dictionary, so \<open>token in EXTERNAL_LEXERS\<close> is false
  and both tests on it take the \<open>else\<close> branch.
\<close>

function lex_loop :: "string \<Rightarrow> nat \<Rightarrow> bool \<Rightarrow> item list \<Rightarrow> token gen"
  and lex_char :: "string \<Rightarrow> nat \<Rightarrow> bool \<Rightarrow> item \<Rightarrow> item list \<Rightarrow> token gen" where
  "lex_loop token token_line next_token_is_directive [] = ([], None)"
| "lex_loop token token_line next_token_is_directive ((char, line) # its) =
     (if isspace char
      then (case skip_space ((char, line) # its) of
              None \<Rightarrow>
                (if token \<noteq> [] then ([(token, token_line, False)], Some RuntimeError)
                 else ([], Some RuntimeError))
            | Some (i, its') \<Rightarrow>
                (if token \<noteq> []
                 then yield (token, token_line, False) (lex_char [] token_line False i its')
                 else lex_char token token_line next_token_is_directive i its'))
      else lex_char token token_line next_token_is_directive (char, line) its)"
| "lex_char token token_line next_token_is_directive (char, line) its =
     (if token = [] \<and> char = ''#''
      then (case read_comment token char its of
              None \<Rightarrow> ([], Some RuntimeError)
            | Some (token', its') \<Rightarrow>
                yield (token', line, False) (lex_loop [] token_line next_token_is_directive its'))
      else
        (let token_line = (if token = [] then line else token_line)
         in (case (if token \<noteq> [] \<and> last token = CHR ''$'' \<and> char = ''{''
                   then map_option (\<lambda>(t, i, r). (t, i, r, False)) (read_expansion token (char, line) its)
                   else Some (token, (char, line), its, next_token_is_directive)) of
               None \<Rightarrow> ([], Some RuntimeError)
             | Some (token, (char, line), its, next_token_is_directive) \<Rightarrow>
                 if char = [CHR 0x22] \<or> char = [CHR 0x27]
                 then (if token \<noteq> []
                       then lex_loop (token @ char) token_line next_token_is_directive its
                       else (case read_quoted char token its of
                               None \<Rightarrow> ([], Some RuntimeError)
                             | Some (token', its') \<Rightarrow>
                                 yield (token', token_line, True) (lex_loop [] token_line False its')))
                 else if char = ''{'' \<or> char = ''}'' \<or> char = '';''
                 then (if token \<noteq> []
                       then yield (token, token_line, False)
                              (yield (char, line, False) (lex_loop [] token_line True its))
                       else yield (char, line, False) (lex_loop [] token_line True its))
                 else lex_loop (token @ char) token_line next_token_is_directive its)))"
  by pat_completeness auto
termination
  by (relation "measure (\<lambda>x. case x of
                   Inl (_, _, _, its) \<Rightarrow> 2 * length its
                 | Inr (_, _, _, _, its) \<Rightarrow> 2 * length its + 1)")
     (auto dest!: skip_space_length read_comment_length read_expansion_length read_quoted_length
           split: if_splits)

declare lex_char.simps [simp del]

text \<open>\<open>_lex_file_object\<close> on the text of a file, with its decorator.\<close>

definition lex_file_object :: "string \<Rightarrow> token gen" where
  "lex_file_object text =
     fix_pep_479 (lex_loop [] 0 True (iterlinecount 1 (fst (iterescape text))))"

subsection \<open>Brace balancer\<close>

text \<open>
  \<open>_balance_braces\<close>: the loop over the tokens with \<open>depth\<close> and the loop variable
  \<open>line\<close>, which the end-of-file error reads after the loop (it is bound whenever
  \<open>depth > 0\<close>). The last argument is the way the wrapped generator ends.
\<close>

definition reason_unexpected_rbrace :: string where
  \<open>reason_unexpected_rbrace = ''unexpected "}"''\<close>

definition reason_unexpected_eof :: string where
  \<open>reason_unexpected_eof = ''unexpected end of file, expecting "}"''\<close>

fun balance_loop :: "int \<Rightarrow> nat \<Rightarrow> string \<Rightarrow> token list \<Rightarrow> exn option \<Rightarrow> token gen" where
  "balance_loop depth line filename [] ended =
     (case ended of
        Some e \<Rightarrow> ([], Some e)
      | None \<Rightarrow>
          if depth > 0
          then ([], Some (NgxParserSyntaxError reason_unexpected_eof filename line))
          else ([], None))"
| "balance_loop depth line0 filename ((token, line, quoted) # ts) ended =
     (let depth = (if token = ''}'' \<and> \<not> quoted then depth - 1
                   else if token = ''{'' \<and> \<not> quoted then depth + 1
                   else depth)
      in if depth < 0
         then ([], Some (NgxParserSyntaxError reason_unexpected_rbrace filename line))
         else yield (token, line, quoted) (balance_loop depth line filename ts ended))"

definition balance_braces :: "token gen \<Rightarrow> string \<Rightarrow> token gen" where
  "balance_braces tokens filename = balance_loop 0 0 filename (fst tokens) (snd tokens)"

text \<open>
  The depth the balancer tracks, as a function of the tokens read so far: an unquoted
  \<open>{\<close> adds one, an unquoted \<open>}\<close> takes one away. \<open>never_negative\<close> says that no
  prefix of the tokens has a negative depth.
\<close>

definition brace_step :: "token \<Rightarrow> int" where
  "brace_step t =
     (case t of (tok, _, quoted) \<Rightarrow>
        if tok = ''}'' \<and> \<not> quoted then - 1 else if tok = ''{'' \<and> \<not> quoted then 1 else 0)"

definition brace_depth :: "token list \<Rightarrow> int" where
  "brace_depth ts = sum_list (map brace_step ts)"

definition never_negative :: "token list \<Rightarrow> bool" where
  "never_negative ts = (\<forall>n \<le> length ts. 0 \<le> brace_depth (take n ts))"


subsection \<open>String formatting\<close>

text \<open>
  \<open>fmt % arg\<close> for a format string and one \<open>str\<close> argument, as \<open>analyze\<close> uses it to
  build its messages. \<open>None\<close> is the \<open>TypeError\<close> or \<open>ValueError\<close> that Python raises:
  a conversion that the argument does not fit, a second conversion when the argument
  is used up, an unknown or incomplete conversion, a mapping key, a \<open>*\<close> width, or an
  argument that no conversion used.
\<close>

definition is_digit :: "char \<Rightarrow> bool" where
  "is_digit c = (48 \<le> (of_char c :: nat) \<and> (of_char c :: nat) \<le> 57)"

text \<open>A run of digits, with the overflow test of the interpreter (\<open>bound\<close> is its limit).\<close>

fun read_number :: "nat \<Rightarrow> nat \<Rightarrow> string \<Rightarrow> (nat \<times> string) option" where
  "read_number bound acc [] = Some (acc, [])"
| "read_number bound acc (c # cs) =
     (if is_digit c
      then (let d = of_char c - (48 :: nat)
            in if acc > (bound - d) div 10 then None
               else read_number bound (acc * 10 + d) cs)
      else Some (acc, c # cs))"

definition hex_digit :: "nat \<Rightarrow> char" where
  "hex_digit n = (''0123456789abcdef'' ! n)"

text \<open>\<open>repr\<close> (and \<open>ascii\<close>, when \<open>ascii_only\<close>) of a string.\<close>

definition repr_char :: "bool \<Rightarrow> char \<Rightarrow> char \<Rightarrow> string" where
  "repr_char ascii_only quote c =
     (let n = (of_char c :: nat)
      in if c = quote \<or> c = backslash then [backslash, c]
         else if n = 9 then [backslash, CHR ''t'']
         else if n = 10 then [backslash, CHR ''n'']
         else if n = 13 then [backslash, CHR ''r'']
         else if n < 32 \<or> n = 127 \<or> (128 \<le> n \<and> (ascii_only \<or> n \<le> 160 \<or> n = 173))
         then [backslash, CHR ''x'', hex_digit (n div 16), hex_digit (n mod 16)]
         else [c])"

definition py_repr :: "bool \<Rightarrow> string \<Rightarrow> string" where
  "py_repr ascii_only s =
     (let quote = (if CHR 0x27 \<in> set s \<and> CHR 0x22 \<notin> set s then CHR 0x22 else CHR 0x27)
      in [quote] @ concat (map (repr_char ascii_only quote) s) @ [quote])"

definition pad :: "bool \<Rightarrow> nat \<Rightarrow> string \<Rightarrow> string" where
  "pad left width s =
     (if left then s @ replicate (width - length s) CHR '' ''
      else replicate (width - length s) CHR '' '' @ s)"

text \<open>
  One conversion, from the character after \<open>%\<close>: flags, width, precision, length
  modifier, conversion type. A mapping key and a \<open>*\<close> width or precision need another
  kind of argument than the one string.
\<close>

definition read_width :: "string \<Rightarrow> (nat \<times> string) option" where
  "read_width fmt =
     (if fmt \<noteq> [] \<and> hd fmt = CHR ''*'' then None else read_number (2 ^ 63 - 1) 0 fmt)"

definition read_precision :: "string \<Rightarrow> (nat option \<times> string) option" where
  "read_precision fmt =
     (if fmt \<noteq> [] \<and> hd fmt = CHR ''.''
      then (if tl fmt \<noteq> [] \<and> hd (tl fmt) = CHR ''*'' then None
            else map_option (\<lambda>(n, r). (Some n, r)) (read_number (2 ^ 31 - 1) 0 (tl fmt)))
      else Some (None, fmt))"

definition skip_length_modifier :: "string \<Rightarrow> string" where
  "skip_length_modifier fmt = (if fmt \<noteq> [] \<and> hd fmt \<in> set ''hlL'' then tl fmt else fmt)"

definition parse_conversion :: "string \<Rightarrow> (bool \<times> nat \<times> nat option \<times> char \<times> string) option" where
  "parse_conversion fmt =
     (if fmt \<noteq> [] \<and> hd fmt = CHR ''('' then None
      else (case read_width (dropWhile (\<lambda>c. c \<in> set ''-+ #0'') fmt) of
              None \<Rightarrow> None
            | Some (width, fmt2) \<Rightarrow>
                (case read_precision fmt2 of
                   None \<Rightarrow> None
                 | Some (prec, fmt3) \<Rightarrow>
                     (case skip_length_modifier fmt3 of
                        [] \<Rightarrow> None
                      | c # rest \<Rightarrow>
                          Some (CHR ''-'' \<in> set (takeWhile (\<lambda>c. c \<in> set ''-+ #0'') fmt),
                                width, prec, c, rest)))))"

text \<open>
  The text of a conversion that takes the argument. The conversion type \<open>%\<close> is not
  one of them: after flags, a width, a precision or a length modifier it is an
  unsupported format character.
\<close>

definition render_conversion ::
  "bool \<Rightarrow> nat \<Rightarrow> nat option \<Rightarrow> char \<Rightarrow> string option \<Rightarrow> (string \<times> bool) option" where
  "render_conversion left width prec c arg =
     (if c \<in> set ''sra''
      then (case arg of
              None \<Rightarrow> None
            | Some a \<Rightarrow>
                (let text = (if c = CHR ''s'' then a else py_repr (c = CHR ''a'') a);
                     text = (case prec of None \<Rightarrow> text | Some n \<Rightarrow> take n text)
                 in Some (pad left width text, True)))
      else if c = CHR ''c''
      then (case arg of
              None \<Rightarrow> None
            | Some a \<Rightarrow> if length a = 1 then Some (pad left width a, True) else None)
      else None)"

text \<open>
  What follows a \<open>%\<close>: a second \<open>%\<close> right after it is the literal percent sign and
  uses no argument; anything else is a conversion. The result is the text, whether
  the argument was used, and the rest of the format.
\<close>

definition format_arg :: "string \<Rightarrow> string option \<Rightarrow> (string \<times> bool \<times> string) option" where
  "format_arg fmt arg =
     (if fmt \<noteq> [] \<and> hd fmt = CHR ''%'' then Some (''%'', False, tl fmt)
      else (case parse_conversion fmt of
              None \<Rightarrow> None
            | Some (left, width, prec, c, rest) \<Rightarrow>
                (case render_conversion left width prec c arg of
                   None \<Rightarrow> None
                 | Some (text, used) \<Rightarrow> Some (text, used, rest))))"

lemma read_number_length:
  "read_number bound acc s = Some (n, r) \<Longrightarrow> length r \<le> length s"
proof (induction s arbitrary: acc)
  case Nil
  then show ?case by simp
next
  case (Cons c s)
  show ?case
  proof (cases "is_digit c")
    case True
    with Cons.prems
    have "read_number bound (acc * 10 + (of_char c - 48)) s = Some (n, r)"
      by (simp add: Let_def split: if_splits)
    from Cons.IH [OF this] show ?thesis by simp
  next
    case False
    with Cons.prems show ?thesis by auto
  qed
qed

lemma read_width_length:
  "read_width fmt = Some (n, r) \<Longrightarrow> length r \<le> length fmt"
  by (auto simp: read_width_def dest: read_number_length split: if_splits)

lemma read_precision_length:
  "read_precision fmt = Some (p, r) \<Longrightarrow> length r \<le> length fmt"
  by (cases fmt) (auto simp: read_precision_def dest!: read_number_length split: if_splits)

lemma skip_length_modifier_length:
  "skip_length_modifier fmt = c # rest \<Longrightarrow> length rest < length fmt"
  by (cases fmt) (auto simp: skip_length_modifier_def split: if_splits)

lemma parse_conversion_length:
  assumes "parse_conversion fmt = Some (left, width, prec, c, rest)"
  shows "length rest < length fmt"
proof -
  from assms obtain fmt2 fmt3 where
    w: "read_width (dropWhile (\<lambda>c. c \<in> set ''-+ #0'') fmt) = Some (width, fmt2)" and
    p: "read_precision fmt2 = Some (prec, fmt3)" and
    m: "skip_length_modifier fmt3 = c # rest"
    unfolding parse_conversion_def
    by (auto split: if_splits option.splits list.splits)
  have "length (dropWhile (\<lambda>c. c \<in> set ''-+ #0'') fmt) \<le> length fmt"
    by (rule length_dropWhile_le)
  with read_width_length [OF w] read_precision_length [OF p] skip_length_modifier_length [OF m]
  show ?thesis by simp
qed

lemma format_arg_length:
  "format_arg fmt arg = Some (text, used, rest) \<Longrightarrow> length rest < length fmt"
  by (cases fmt) (auto simp: format_arg_def dest: parse_conversion_length
                       split: option.splits if_splits)

text \<open>The scan of the format; \<open>arg\<close> is the argument while no conversion has used it.\<close>

function format_loop :: "string \<Rightarrow> string option \<Rightarrow> string option" where
  "format_loop [] arg = (if arg = None then Some [] else None)"
| "format_loop (c # fmt) arg =
     (if c = CHR ''%''
      then (case format_arg fmt arg of
              None \<Rightarrow> None
            | Some (text, used, rest) \<Rightarrow>
                map_option (\<lambda>r. text @ r) (format_loop rest (if used then None else arg)))
      else map_option (\<lambda>r. c # r) (format_loop fmt arg))"
  by pat_completeness auto
termination
  by (relation "measure (\<lambda>(fmt, arg). length fmt)") (auto dest: format_arg_length)

definition py_format :: "string \<Rightarrow> string \<Rightarrow> string option" where
  "py_format fmt arg = format_loop fmt (Some arg)"

subsection \<open>Statement nodes\<close>

text \<open>
  A statement dictionary: \<open>directive\<close>, \<open>line\<close> and \<open>args\<close> are always there; \<open>file\<close>
  (combine mode), \<open>block\<close>, \<open>includes\<close> and \<open>comment\<close> are keys that may be absent.
  The selector \<open>stmt_k\<close> is \<open>stmt["k"]\<close>.
\<close>

datatype node =
  Node (stmt_file: "string option") (stmt_directive: string) (stmt_line: nat)
       (stmt_args: "string list") (stmt_block: "node list option")
       (stmt_includes: "nat list option") (stmt_comment: "string option")

text \<open>The assignments \<open>stmt["includes"] = ...\<close> and \<open>stmt["block"] = ...\<close>.\<close>

fun set_includes :: "node \<Rightarrow> nat list \<Rightarrow> node" where
  "set_includes (Node f d l a b i c) indices = Node f d l a b (Some indices) c"

fun set_block :: "node \<Rightarrow> node list \<Rightarrow> node" where
  "set_block (Node f d l a b i c) stmts = Node f d l a (Some stmts) i c"

subsection \<open>Grammar table and analyzer\<close>

unbundle bit_operations_syntax

definition NGX_CONF_NOARGS :: nat where "NGX_CONF_NOARGS = 0x00000001"
definition NGX_CONF_TAKE1 :: nat where "NGX_CONF_TAKE1 = 0x00000002"
definition NGX_CONF_TAKE2 :: nat where "NGX_CONF_TAKE2 = 0x00000004"
definition NGX_CONF_TAKE3 :: nat where "NGX_CONF_TAKE3 = 0x00000008"
definition NGX_CONF_TAKE4 :: nat where "NGX_CONF_TAKE4 = 0x00000010"
definition NGX_CONF_TAKE5 :: nat where "NGX_CONF_TAKE5 = 0x00000020"
definition NGX_CONF_TAKE6 :: nat where "NGX_CONF_TAKE6 = 0x00000040"
definition NGX_CONF_TAKE7 :: nat where "NGX_CONF_TAKE7 = 0x00000080"
definition NGX_CONF_BLOCK :: nat where "NGX_CONF_BLOCK = 0x00000100"
definition NGX_CONF_FLAG :: nat where "NGX_CONF_FLAG = 0x00000200"
definition NGX_CONF_ANY :: nat where "NGX_CONF_ANY = 0x00000400"
definition NGX_CONF_1MORE :: nat where "NGX_CONF_1MORE = 0x00000800"
definition NGX_CONF_2MORE :: nat where "NGX_CONF_2MORE = 0x00001000"
definition NGX_CONF_TAKE12 :: nat where "NGX_CONF_TAKE12 = NGX_CONF_TAKE1 OR NGX_CONF_TAKE2"

definition NGX_MAIN_CONF :: nat where "NGX_MAIN_CONF = 0x00040000"
definition NGX_EVENT_CONF :: nat where "NGX_EVENT_CONF = 0x00080000"
definition NGX_HTTP_MAIN_CONF :: nat where "NGX_HTTP_MAIN_CONF = 0x02000000"
definition NGX_HTTP_SRV_CONF :: nat where "NGX_HTTP_SRV_CONF = 0x04000000"
definition NGX_HTTP_LOC_CONF :: nat where "NGX_HTTP_LOC_CONF = 0x08000000"
definition NGX_HTTP_UPS_CONF :: nat where "NGX_HTTP_UPS_CONF = 0x10000000"
definition NGX_HTTP_SIF_CONF :: nat where "NGX_HTTP_SIF_CONF = 0x20000000"
definition NGX_HTTP_LIF_CONF :: nat where "NGX_HTTP_LIF_CONF = 0x40000000"
definition NGX_HTTP_LMT_CONF :: nat where "NGX_HTTP_LMT_CONF = 0x80000000"

lemmas NGX_defs =
  NGX_CONF_NOARGS_def NGX_CONF_TAKE1_def NGX_CONF_TAKE2_def NGX_CONF_TAKE3_def
  NGX_CONF_TAKE4_def NGX_CONF_TAKE5_def NGX_CONF_TAKE6_def NGX_CONF_TAKE7_def
  NGX_CONF_BLOCK_def NGX_CONF_FLAG_def NGX_CONF_ANY_def NGX_CONF_1MORE_def
  NGX_CONF_2MORE_def NGX_CONF_TAKE12_def NGX_MAIN_CONF_def NGX_EVENT_CONF_def
  NGX_HTTP_MAIN_CONF_def NGX_HTTP_SRV_CONF_def NGX_HTTP_LOC_CONF_def NGX_HTTP_UPS_CONF_def
  NGX_HTTP_SIF_CONF_def NGX_HTTP_LIF_CONF_def NGX_HTTP_LMT_CONF_def

type_synonym ctx = "string list"

definition CONTEXTS :: "ctx \<Rightarrow> nat option" where
  "CONTEXTS = map_of
     [([], NGX_MAIN_CONF),
      ([''events''], NGX_EVENT_CONF),
      ([''http''], NGX_HTTP_MAIN_CONF),
      ([''http'', ''server''], NGX_HTTP_SRV_CONF),
      ([''http'', ''location''], NGX_HTTP_LOC_CONF),
      ([''http'', ''upstream''], NGX_HTTP_UPS_CONF),
      ([''http'', ''server'', ''if''], NGX_HTTP_SIF_CONF),
      ([''http'', ''location'', ''if''], NGX_HTTP_LIF_CONF),
      ([''http'', ''location'', ''limit_except''], NGX_HTTP_LMT_CONF)]"

definition DIRECTIVES :: "string \<Rightarrow> nat list option" where
  "DIRECTIVES = map_of
     [(''events'', [NGX_MAIN_CONF OR NGX_CONF_BLOCK OR NGX_CONF_NOARGS]),
      (''http'', [NGX_MAIN_CONF OR NGX_CONF_BLOCK OR NGX_CONF_NOARGS]),
      (''server'', [NGX_HTTP_MAIN_CONF OR NGX_CONF_BLOCK OR NGX_CONF_NOARGS]),
      (''location'',
        [NGX_HTTP_MAIN_CONF OR NGX_HTTP_SRV_CONF OR NGX_HTTP_LOC_CONF OR NGX_CONF_1MORE
           OR NGX_CONF_BLOCK]),
      (''upstream'', [NGX_HTTP_MAIN_CONF OR NGX_CONF_TAKE1 OR NGX_CONF_BLOCK]),
      (''include'',
        [NGX_MAIN_CONF OR NGX_HTTP_MAIN_CONF OR NGX_HTTP_SRV_CONF OR NGX_HTTP_LOC_CONF
           OR NGX_CONF_TAKE1]),
      (''listen'', [NGX_HTTP_SRV_CONF OR NGX_CONF_1MORE]),
      (''server_name'', [NGX_HTTP_SRV_CONF OR NGX_CONF_1MORE]),
      (''root'',
        [NGX_HTTP_MAIN_CONF OR NGX_HTTP_SRV_CONF OR NGX_HTTP_LOC_CONF OR NGX_CONF_TAKE1]),
      (''index'',
        [NGX_HTTP_MAIN_CONF OR NGX_HTTP_SRV_CONF OR NGX_HTTP_LOC_CONF OR NGX_CONF_1MORE]),
      (''error_page'',
        [NGX_HTTP_MAIN_CONF OR NGX_HTTP_SRV_CONF OR NGX_HTTP_LOC_CONF OR NGX_CONF_2MORE]),
      (''access_log'',
        [NGX_HTTP_MAIN_CONF OR NGX_HTTP_SRV_CONF OR NGX_HTTP_LOC_CONF OR NGX_CONF_1MORE]),
      (''error_log'',
        [NGX_MAIN_CONF OR NGX_HTTP_MAIN_CONF OR NGX_HTTP_SRV_CONF OR NGX_HTTP_LOC_CONF
           OR NGX_CONF_1MORE]),
      (''worker_processes'', [NGX_MAIN_CONF OR NGX_CONF_TAKE1]),
      (''worker_connections'', [NGX_EVENT_CONF OR NGX_CONF_TAKE1]),
      (''keepalive_timeout'',
        [NGX_HTTP_MAIN_CONF OR NGX_HTTP_SRV_CONF OR NGX_HTTP_LOC_CONF OR NGX_CONF_TAKE12]),
      (''gzip'',
        [NGX_HTTP_MAIN_CONF OR NGX_HTTP_SRV_CONF OR NGX_HTTP_LOC_CONF OR NGX_CONF_FLAG]),
      (''return'', [NGX_HTTP_SRV_CONF OR NGX_HTTP_LOC_CONF OR NGX_CONF_TAKE12]),
      (''try_files'', [NGX_HTTP_LOC_CONF OR NGX_CONF_2MORE]),
      (''proxy_pass'', [NGX_HTTP_LOC_CONF OR NGX_CONF_TAKE1]),
      (''if'',
        [NGX_HTTP_SRV_CONF OR NGX_HTTP_LOC_CONF OR NGX_CONF_1MORE OR NGX_CONF_BLOCK])]"

definition enter_block_ctx :: "node \<Rightarrow> ctx \<Rightarrow> ctx" where
  "enter_block_ctx stmt ctx =
     (if ctx \<noteq> [] \<and> hd ctx = ''http'' \<and> stmt_directive stmt = ''location''
      then [''http'', ''location'']
      else ctx @ [stmt_directive stmt])"

text \<open>\<open>str.lower\<close> on one character (code points below 256).\<close>

definition lower_char :: "char \<Rightarrow> char" where
  "lower_char c =
     (let n = (of_char c :: nat)
      in if (65 \<le> n \<and> n \<le> 90) \<or> (192 \<le> n \<and> n \<le> 222 \<and> n \<noteq> 215)
         then char_of (n + 32) else c)"

definition valid_flag :: "string \<Rightarrow> bool" where
  "valid_flag x = (map lower_char x = ''on'' \<or> map lower_char x = ''off'')"

text \<open>The reason templates of \<open>analyze\<close>; the last one is the result of its own first
  formatting, \<open>'invalid value "%s" in "%%s" directive, ...' % args[0]\<close>.\<close>

definition reason_no_opening :: string where
  \<open>reason_no_opening = ''directive "%s" has no opening "{"''\<close>

definition reason_not_terminated :: string where
  \<open>reason_not_terminated = ''directive "%s" is not terminated by ";"''\<close>

definition reason_invalid_number :: string where
  \<open>reason_invalid_number = ''invalid number of arguments in "%s" directive''\<close>

definition reason_invalid_flag_template :: string where
  \<open>reason_invalid_flag_template =
     ''invalid value "%s" in "%%s" directive, it must be "on" or "off"''\<close>

definition reason_invalid_flag :: "string \<Rightarrow> string" where
  \<open>reason_invalid_flag arg =
     ''invalid value "'' @ arg @ ''" in "%s" directive, it must be "on" or "off"''\<close>

definition reason_unknown :: "string \<Rightarrow> string" where
  \<open>reason_unknown name = ''unknown directive "'' @ name @ ''"''\<close>

definition reason_not_allowed :: "string \<Rightarrow> string" where
  \<open>reason_not_allowed name = ''"'' @ name @ ''" directive is not allowed here''\<close>

text \<open>
  The body of the loop \<open>for mask in reversed(masks)\<close>: \<open>None\<close> when the mask accepts the
  statement (\<open>return\<close>), otherwise the value the iteration leaves in \<open>reason\<close>. The loop variable is
  written \<open>msk\<close>.
\<close>

definition check_mask :: "string \<Rightarrow> string list \<Rightarrow> nat \<Rightarrow> string option" where
  "check_mask term args msk =
     (let n_args = length args
      in if msk AND NGX_CONF_BLOCK \<noteq> 0 \<and> term \<noteq> ''{'' then Some reason_no_opening
         else if msk AND NGX_CONF_BLOCK = 0 \<and> term \<noteq> '';'' then Some reason_not_terminated
         else if (drop_bit n_args msk AND 1 \<noteq> 0 \<and> n_args \<le> 7)
                 \<or> (msk AND NGX_CONF_FLAG \<noteq> 0 \<and> n_args = 1 \<and> valid_flag (args ! 0))
                 \<or> (msk AND NGX_CONF_ANY \<noteq> 0 \<and> n_args \<ge> 0)
                 \<or> (msk AND NGX_CONF_1MORE \<noteq> 0 \<and> n_args \<ge> 1)
                 \<or> (msk AND NGX_CONF_2MORE \<noteq> 0 \<and> n_args \<ge> 2)
         then None
         else if msk AND NGX_CONF_FLAG \<noteq> 0 \<and> n_args = 1 \<and> \<not> valid_flag (args ! 0)
         then Some (reason_invalid_flag (args ! 0))
         else Some reason_invalid_number)"

text \<open>
  The loop itself, over the masks in the order it visits them. \<open>reason\<close> is unbound
  (\<open>None\<close>) until an iteration assigns it. \<open>Accepted\<close> is the \<open>return\<close> inside the loop,
  \<open>Rejected reason\<close> is leaving the loop with that value of \<open>reason\<close>.
\<close>

datatype scan = Accepted | Rejected "string option"

fun check_masks :: "string \<Rightarrow> string list \<Rightarrow> string option \<Rightarrow> nat list \<Rightarrow> scan" where
  "check_masks term args reason [] = Rejected reason"
| "check_masks term args reason (msk # masks) =
     (case check_mask term args msk of
        None \<Rightarrow> Accepted
      | Some reason' \<Rightarrow> check_masks term args (Some reason') masks)"

text \<open>\<open>analyze\<close>: \<open>None\<close> when it returns, \<open>Some e\<close> when it raises \<open>e\<close>.\<close>

definition analyze ::
  "string \<Rightarrow> node \<Rightarrow> string \<Rightarrow> ctx \<Rightarrow> bool \<Rightarrow> bool \<Rightarrow> bool \<Rightarrow> exn option" where
  "analyze fname stmt term ctx strict check_ctx check_args =
     (if strict \<and> DIRECTIVES (stmt_directive stmt) = None
      then Some (NgxParserDirectiveUnknownError (reason_unknown (stmt_directive stmt)) fname (stmt_line stmt))
      else
        (case (CONTEXTS ctx, DIRECTIVES (stmt_directive stmt)) of
           (Some ctx_mask, Some all_masks) \<Rightarrow>
             (let masks = (if check_ctx then filter (\<lambda>msk. msk AND ctx_mask \<noteq> 0) all_masks
                           else all_masks)
              in if check_ctx \<and> masks = []
                 then Some (NgxParserDirectiveContextError
                              (reason_not_allowed (stmt_directive stmt)) fname (stmt_line stmt))
                 else if \<not> check_args then None
                 else (case check_masks term (stmt_args stmt) None (rev masks) of
                         Accepted \<Rightarrow> None
                       | Rejected None \<Rightarrow> Some UnboundLocalError
                       | Rejected (Some reason) \<Rightarrow>
                           (case py_format reason (stmt_directive stmt) of
                              None \<Rightarrow> Some FormatError
                            | Some message \<Rightarrow>
                                Some (NgxParserDirectiveArgumentsError message fname (stmt_line stmt)))))
         | _ \<Rightarrow> None))"

subsection \<open>Parser state\<close>

text \<open>
  The keyword parameters of \<open>parse\<close> (\<open>onerror\<close> is left \<open>None\<close>), and the file system it
  reads: \<open>fs path\<close> is the text of the file when it can be opened, \<open>glob_glob\<close> is
  \<open>glob.glob\<close>.
\<close>

record opts =
  catch_errors :: bool
  ignore :: "string list"
  single :: bool
  comments :: bool
  strict :: bool
  combine :: bool
  check_ctx :: bool
  check_args :: bool

record env =
  fs :: "string \<Rightarrow> string option"
  glob_glob :: "string \<Rightarrow> string list"

text \<open>
  A \<open>parsing\<close> dictionary (one per file) and the variables that the closures of \<open>parse\<close>
  share: the payload, the worklist \<open>includes\<close> and the map \<open>included\<close>. An error entry
  keeps the exception where the dictionary keeps its \<open>str\<close>, next to the line.
\<close>

record parsing =
  parsing_file :: string
  parsing_status :: string
  parsing_errors :: "(exn \<times> nat option) list"
  parsing_parsed :: "node list"

record run =
  payload_status :: string
  payload_errors :: "(string \<times> exn \<times> nat option) list"
  payload_config :: "parsing list"
  includes_list :: "(string \<times> ctx) list"
  included :: "(string \<times> nat) list"

type_synonym state = "parsing \<times> run"

text \<open>\<open>getattr(e, "lineno", None)\<close> and \<open>e.strerror\<close>.\<close>

fun lineno_of :: "exn \<Rightarrow> nat option" where
  "lineno_of (NgxParserSyntaxError _ _ l) = Some l"
| "lineno_of (NgxParserDirectiveArgumentsError _ _ l) = Some l"
| "lineno_of (NgxParserDirectiveContextError _ _ l) = Some l"
| "lineno_of (NgxParserDirectiveUnknownError _ _ l) = Some l"
| "lineno_of (OSError _ l) = l"
| "lineno_of _ = None"

fun strerror :: "exn \<Rightarrow> string" where
  "strerror (NgxParserSyntaxError r _ _) = r"
| "strerror (NgxParserDirectiveArgumentsError r _ _) = r"
| "strerror (NgxParserDirectiveContextError r _ _) = r"
| "strerror (NgxParserDirectiveUnknownError r _ _) = r"
| "strerror _ = []"

text \<open>\<open>isinstance(e, NgxParserDirectiveError)\<close>.\<close>

fun is_directive_error :: "exn \<Rightarrow> bool" where
  "is_directive_error (NgxParserDirectiveArgumentsError _ _ _) = True"
| "is_directive_error (NgxParserDirectiveContextError _ _ _) = True"
| "is_directive_error (NgxParserDirectiveUnknownError _ _ _) = True"
| "is_directive_error _ = False"

definition handle_error :: "state \<Rightarrow> exn \<Rightarrow> state" where
  "handle_error st e =
     (case st of (parsing, run) \<Rightarrow>
        (parsing\<lparr>parsing_status := ''failed'',
                 parsing_errors := parsing_errors parsing @ [(e, lineno_of e)]\<rparr>,
         run\<lparr>payload_status := ''failed'',
             payload_errors := payload_errors run @ [(parsing_file parsing, e, lineno_of e)]\<rparr>))"

subsection \<open>Paths\<close>

definition isabs :: "string \<Rightarrow> bool" where
  "isabs p = (p \<noteq> [] \<and> hd p = CHR ''/'')"

definition path_join :: "string \<Rightarrow> string \<Rightarrow> string" where
  "path_join a b =
     (if isabs b then b
      else if a = [] \<or> last a = CHR ''/'' then a @ b
      else a @ ''/'' @ b)"

definition dirname :: "string \<Rightarrow> string" where
  "dirname p =
     (let head = rev (dropWhile (\<lambda>c. c \<noteq> CHR ''/'') (rev p))
      in if head \<noteq> [] \<and> head \<noteq> replicate (length head) CHR ''/''
         then rev (dropWhile (\<lambda>c. c = CHR ''/'') (rev head))
         else head)"

definition has_magic :: "string \<Rightarrow> bool" where
  "has_magic p = (\<exists>c \<in> set p. c = CHR ''*'' \<or> c = CHR ''?'' \<or> c = CHR ''['')"

subsection \<open>Parser\<close>

definition startswith :: "string \<Rightarrow> string \<Rightarrow> bool" where
  "startswith p s = (take (length p) s = p)"

definition endswith :: "string \<Rightarrow> string \<Rightarrow> bool" where
  "endswith p s = (length p \<le> length s \<and> drop (length s - length p) s = p)"

definition lstrip :: "string \<Rightarrow> string" where
  "lstrip s = dropWhile isspace_char s"

definition rstrip :: "string \<Rightarrow> string" where
  "rstrip s = rev (dropWhile isspace_char (rev s))"

text \<open>\<open>_prepare_if_args\<close>, on the list \<open>stmt["args"]\<close>.\<close>

definition prepare_if_args :: "string list \<Rightarrow> string list" where
  "prepare_if_args args =
     (if args \<noteq> [] \<and> startswith ''('' (hd args) \<and> endswith '')'' (last args)
      then (let args = args[0 := lstrip (tl (hd args))];
                args = args[length args - 1 := rstrip (butlast (last args))];
                start = (if hd args = [] then 1 else 0);
                end' = length args - (if last args = [] then 1 else 0)
            in drop start (take end' args))
      else args)"

text \<open>
  The argument loop: \<open>token, __, quoted = next(tokens)\<close> and the \<open>while\<close> after it. The
  result is the arguments, the comments found among them, the token that ends the
  statement (an unquoted \<open>{\<close>, \<open>;\<close> or \<open>}\<close>, so \<open>quoted\<close> is false after the loop) and the
  tokens left. \<open>next\<close> on the exhausted stream raises what the stream ends with.
\<close>

fun read_args ::
  "token list \<Rightarrow> exn option \<Rightarrow> string list \<Rightarrow> string list
   \<Rightarrow> exn + (string list \<times> string list \<times> string \<times> token list)" where
  "read_args [] ended args comments_in_args =
     Inl (case ended of None \<Rightarrow> StopIteration | Some e \<Rightarrow> e)"
| "read_args ((token, _, quoted) # tokens) ended args comments_in_args =
     (if (token \<noteq> ''{'' \<and> token \<noteq> '';'' \<and> token \<noteq> ''}'') \<or> quoted
      then (if startswith ''#'' token \<and> \<not> quoted
            then read_args tokens ended args (comments_in_args @ [tl token])
            else read_args tokens ended (args @ [token]) comments_in_args)
      else Inr (args, comments_in_args, token, tokens))"

text \<open>
  The loop \<open>for fname in fnames\<close> of the include branch: a path that is not in
  \<open>included\<close> is registered with the next worklist index and appended to the worklist;
  the index of the path is appended to \<open>stmt["includes"]\<close>.
\<close>

fun enqueue :: "ctx \<Rightarrow> string list \<Rightarrow> run \<Rightarrow> nat list \<Rightarrow> run \<times> nat list" where
  "enqueue ctx [] run indices = (run, indices)"
| "enqueue ctx (fname # fnames) run indices =
     (case map_of (included run) fname of
        None \<Rightarrow>
          enqueue ctx fnames
            (run\<lparr>included := included run @ [(fname, length (includes_list run))],
                 includes_list := includes_list run @ [(fname, ctx)]\<rparr>)
            (indices @ [length (includes_list run)])
      | Some index \<Rightarrow> enqueue ctx fnames run (indices @ [index]))"

text \<open>
  The include branch of \<open>_parse\<close>. It returns the statement and the value of the local
  variable \<open>fname\<close>, which the loop over the included files rebinds.
\<close>

definition resolve_include ::
  "env \<Rightarrow> opts \<Rightarrow> string \<Rightarrow> ctx \<Rightarrow> node \<Rightarrow> string \<Rightarrow> state \<Rightarrow> (exn + node \<times> string) \<times> state" where
  "resolve_include env opts config_dir ctx stmt fname st =
     (if \<not> single opts \<and> stmt_directive stmt = ''include''
      then (case stmt_args stmt of
              [] \<Rightarrow> (Inl IndexError, st)
            | arg0 # _ \<Rightarrow>
                (let pattern = (if \<not> isabs arg0 then path_join config_dir arg0 else arg0)
                 in case (if has_magic pattern then (None, sort (glob_glob env pattern), st)
                          else (case fs env pattern of
                                  Some _ \<Rightarrow> (None, [pattern], st)
                                | None \<Rightarrow>
                                    (let e = OSError pattern (Some (stmt_line stmt))
                                     in if catch_errors opts then (None, [], handle_error st e)
                                        else (Some e, [], st)))) of
                      (Some e, _, st) \<Rightarrow> (Inl e, st)
                    | (None, fnames, (parsing, run)) \<Rightarrow>
                        (case enqueue ctx fnames run [] of
                           (run, indices) \<Rightarrow>
                             (Inr (set_includes stmt indices,
                                   if fnames = [] then fname else last fnames),
                              (parsing, run)))))
      else (Inr (stmt, fname), st))"

definition comment_stmt :: "nat \<Rightarrow> string \<Rightarrow> node" where
  "comment_stmt line comment = Node None ''#'' line [] None None (Some comment)"

definition reason_suffix :: string where
  \<open>reason_suffix = '' is not terminated by ";"''\<close>

text \<open>\<open>parsed.append\<close> of statements before what the rest of the loop appends.\<close>

definition prepend ::
  "node list \<Rightarrow> (exn + node list \<times> token list) \<times> state \<Rightarrow> (exn + node list \<times> token list) \<times> state" where
  "prepend stmts r =
     (case r of
        (Inl e, st) \<Rightarrow> (Inl e, st)
      | (Inr (parsed, tokens), st) \<Rightarrow> (Inr (stmts @ parsed, tokens), st))"

text \<open>
  What one iteration of the loop of \<open>_parse\<close> does before it calls \<open>_parse\<close> again or
  goes on to the next token: \<open>Break\<close> and \<open>Raise\<close> leave the loop; \<open>Continue stmts fname\<close>
  appends \<open>stmts\<close> to \<open>parsed\<close> and goes on; \<open>ConsumeBlock\<close> is
  \<open>_parse(parsing, tokens, consume=True)\<close> followed by \<open>continue\<close>; \<open>EnterBlock\<close> is the
  statement that opens a block, with the comment statements that follow it. The string
  is the local variable \<open>fname\<close> after the iteration.
\<close>

datatype action =
    Break
  | Raise exn
  | Continue "node list" string
  | ConsumeBlock string
  | EnterBlock node "node list" string

text \<open>
  The loop body of \<open>_parse\<close> for the token \<open>t\<close>, up to the recursive call. It returns the
  action, the state and the tokens left after the arguments of the statement.
\<close>

definition statement ::
  "env \<Rightarrow> opts \<Rightarrow> string \<Rightarrow> exn option \<Rightarrow> string \<Rightarrow> ctx \<Rightarrow> bool \<Rightarrow> state \<Rightarrow> token \<Rightarrow> token list
   \<Rightarrow> action \<times> state \<times> token list" where
  "statement env opts config_dir ended fname ctx consume st t tokens =
     (case t of (token, lineno, quoted) \<Rightarrow>
      if token = ''}'' \<and> \<not> quoted then (Break, st, tokens)
      else if consume
      then (if token = ''{'' \<and> \<not> quoted then (ConsumeBlock fname, st, tokens)
            else (Continue [] fname, st, tokens))
      else if startswith ''#'' token \<and> \<not> quoted
      then (if comments opts
            then (Continue [Node (if combine opts then Some fname else None) ''#'' lineno []
                              None None (Some (tl token))] fname, st, tokens)
            else (Continue [] fname, st, tokens))
      else
        (case read_args tokens ended [] [] of
           Inl e \<Rightarrow> (Raise e, st, tokens)
         | Inr (args, comments_in_args, term, tokens) \<Rightarrow>
             if token \<in> set (ignore opts)
             then (if term = ''{'' then (ConsumeBlock fname, st, tokens)
                   else (Continue [] fname, st, tokens))
             else
               (let stmt = Node (if combine opts then Some fname else None) token lineno
                             (if token = ''if'' then prepare_if_args args else args)
                             None None None
                in case analyze fname stmt term ctx (strict opts) (check_ctx opts) (check_args opts) of
                     Some e \<Rightarrow>
                       if is_directive_error e \<and> catch_errors opts
                       then (let st = handle_error st e
                             in if endswith reason_suffix (strerror e)
                                then (if term \<noteq> ''}'' then (ConsumeBlock fname, st, tokens)
                                      else (Break, st, tokens))
                                else (Continue [] fname, st, tokens))
                       else (Raise e, st, tokens)
                   | None \<Rightarrow>
                       (case resolve_include env opts config_dir ctx stmt fname st of
                          (Inl e, st) \<Rightarrow> (Raise e, st, tokens)
                        | (Inr (stmt, fname), st) \<Rightarrow>
                            if term = ''{''
                            then (EnterBlock stmt (map (comment_stmt (stmt_line stmt)) comments_in_args)
                                    fname, st, tokens)
                            else (Continue (stmt # map (comment_stmt (stmt_line stmt)) comments_in_args)
                                    fname, st, tokens)))))"

lemma read_args_length:
  "read_args tokens ended args cs = Inr (args', cs', term, tokens') \<Longrightarrow> length tokens' < length tokens"
proof (induction tokens arbitrary: args cs)
  case Nil
  then show ?case by simp
next
  case (Cons t tokens)
  obtain token line quoted where t: "t = (token, line, quoted)" by (cases t)
  show ?case
  proof (cases "(token \<noteq> ''{'' \<and> token \<noteq> '';'' \<and> token \<noteq> ''}'') \<or> quoted")
    case False
    with Cons.prems t show ?thesis by auto
  next
    case True
    with Cons.prems t
    have "\<exists>a c. read_args tokens ended a c = Inr (args', cs', term, tokens')"
      by (auto split: if_splits)
    then obtain a c where "read_args tokens ended a c = Inr (args', cs', term, tokens')" by blast
    from Cons.IH [OF this] show ?thesis by simp
  qed
qed

lemma statement_length:
  assumes "statement env opts config_dir ended fname ctx consume st t tokens = (a, st', tokens')"
  shows "length tokens' \<le> length tokens"
proof -
  obtain token lineno quoted where t: "t = (token, lineno, quoted)" by (cases t)
  show ?thesis
  proof (cases "read_args tokens ended [] []")
    case (Inl e)
    with assms t show ?thesis
      by (auto simp: statement_def split: if_splits)
  next
    case (Inr r)
    obtain args cs trm rest where r: "r = (args, cs, trm, rest)" by (cases r)
    from read_args_length [OF Inr [unfolded r]] have "length rest \<le> length tokens" by simp
    moreover from assms t Inr r have "tokens' = tokens \<or> tokens' = rest"
      by (auto simp: statement_def Let_def split: if_splits option.splits prod.splits sum.splits)
    ultimately show ?thesis by auto
  qed
qed

text \<open>
  \<open>_parse\<close>: the loop over the tokens. The result is \<open>Inr\<close> of the list \<open>parsed\<close> and the
  tokens that the call leaves in the stream, or \<open>Inl\<close> of the exception that leaves the
  call, with the state in both cases. \<open>ended\<close> is the way the token stream ends.
  \<open>limit\<close> is the number of calls of \<open>_parse\<close> that may still be nested inside this one
  before the interpreter raises \<open>RecursionError\<close>.
\<close>

function parse_block ::
  "env \<Rightarrow> opts \<Rightarrow> string \<Rightarrow> nat \<Rightarrow> exn option \<Rightarrow> string \<Rightarrow> ctx \<Rightarrow> bool \<Rightarrow> state \<Rightarrow> token list
   \<Rightarrow> (exn + node list \<times> token list) \<times> state" where
  "parse_block env opts config_dir limit ended fname ctx consume st [] =
     (case ended of
        None \<Rightarrow> (Inr ([], []), st)
      | Some e \<Rightarrow> (Inl e, st))"
| "parse_block env opts config_dir limit ended fname ctx consume st (t # tokens) =
     (case statement env opts config_dir ended fname ctx consume st t tokens of
        (Break, st, tokens) \<Rightarrow> (Inr ([], tokens), st)
      | (Raise e, st, tokens) \<Rightarrow> (Inl e, st)
      | (Continue stmts fname, st, tokens) \<Rightarrow>
          prepend stmts (parse_block env opts config_dir limit ended fname ctx consume st tokens)
      | (ConsumeBlock fname, st, tokens) \<Rightarrow>
          (case limit of
             0 \<Rightarrow> (Inl RecursionError, st)
           | Suc limit' \<Rightarrow>
               (case parse_block env opts config_dir limit' ended (parsing_file (fst st)) [] True st
                       tokens of
                  (Inl e, st) \<Rightarrow> (Inl e, st)
                | (Inr (_, tokens), st) \<Rightarrow>
                    parse_block env opts config_dir limit ended fname ctx consume st tokens))
      | (EnterBlock stmt comment_stmts fname, st, tokens) \<Rightarrow>
          (case limit of
             0 \<Rightarrow> (Inl RecursionError, st)
           | Suc limit' \<Rightarrow>
               (case parse_block env opts config_dir limit' ended (parsing_file (fst st))
                       (enter_block_ctx stmt ctx) False st tokens of
                  (Inl e, st) \<Rightarrow> (Inl e, st)
                | (Inr (inner, tokens), st) \<Rightarrow>
                    prepend (set_block stmt inner # comment_stmts)
                      (parse_block env opts config_dir limit ended fname ctx consume st tokens))))"
  by pat_completeness auto

lemma prepend_Inr:
  "prepend stmts r = (Inr (parsed, tokens), st) \<Longrightarrow> \<exists>parsed'. r = (Inr (parsed', tokens), st)"
  by (auto simp: prepend_def split: prod.splits sum.splits)

lemma parse_block_length:
  "parse_block_dom (env, opts, config_dir, limit, ended, fname, ctx, consume, st, tokens) \<Longrightarrow>
   parse_block env opts config_dir limit ended fname ctx consume st tokens = (Inr (parsed, tokens'), st') \<Longrightarrow>
   length tokens' \<le> length tokens"
proof (induction arbitrary: parsed tokens' st' rule: parse_block.pinduct)
  case (1 env opts config_dir limit ended fname ctx consume st)
  then show ?case by (auto simp: parse_block.psimps split: option.splits)
next
  case (2 env opts config_dir limit ended fname ctx consume st t tokens)
  obtain a st1 tokens1 where s: "statement env opts config_dir ended fname ctx consume st t tokens = (a, st1, tokens1)"
    by (cases "statement env opts config_dir ended fname ctx consume st t tokens")
  from statement_length [OF s] have l1: "length tokens1 \<le> length tokens" .
  show ?case
  proof (cases a)
    case Break
    with "2.prems" "2.hyps" s l1 show ?thesis by (simp add: parse_block.psimps)
  next
    case (Raise e)
    with "2.prems" "2.hyps" s show ?thesis by (simp add: parse_block.psimps)
  next
    case (Continue stmts fname')
    with "2.prems" "2.hyps" s
    have "prepend stmts (parse_block env opts config_dir limit ended fname' ctx consume st1 tokens1)
            = (Inr (parsed, tokens'), st')"
      by (simp add: parse_block.psimps)
    from prepend_Inr [OF this] obtain parsed' where
      "parse_block env opts config_dir limit ended fname' ctx consume st1 tokens1 = (Inr (parsed', tokens'), st')"
      by blast
    from "2.IH"(1) [OF s [symmetric] Continue refl this] l1 show ?thesis by simp
  next
    case (ConsumeBlock fname')
    from "2.prems" "2.hyps" s ConsumeBlock obtain limit' p2 tokens2 st2 where
      lim: "limit = Suc limit'" and
      c1: "parse_block env opts config_dir limit' ended (parsing_file (fst st1)) [] True st1 tokens1
             = (Inr (p2, tokens2), st2)" and
      c2: "parse_block env opts config_dir limit ended fname' ctx consume st2 tokens2
             = (Inr (parsed, tokens'), st')"
      by (auto simp: parse_block.psimps split: prod.splits sum.splits nat.splits)
    from "2.IH"(2) [OF s [symmetric] ConsumeBlock refl lim c1] have "length tokens2 \<le> length tokens1" .
    moreover from "2.IH"(3) [OF s [symmetric] ConsumeBlock refl lim c1 [symmetric] refl refl c2]
    have "length tokens' \<le> length tokens2" .
    ultimately show ?thesis using l1 by simp
  next
    case (EnterBlock stmt cs fname')
    from "2.prems" "2.hyps" s EnterBlock obtain limit' inner tokens2 st2 where
      lim: "limit = Suc limit'" and
      c1: "parse_block env opts config_dir limit' ended (parsing_file (fst st1))
             (enter_block_ctx stmt ctx) False st1 tokens1 = (Inr (inner, tokens2), st2)" and
      c2: "prepend (set_block stmt inner # cs)
             (parse_block env opts config_dir limit ended fname' ctx consume st2 tokens2)
             = (Inr (parsed, tokens'), st')"
      by (auto simp: parse_block.psimps split: prod.splits sum.splits nat.splits)
    from prepend_Inr [OF c2] obtain parsed' where
      c3: "parse_block env opts config_dir limit ended fname' ctx consume st2 tokens2 = (Inr (parsed', tokens'), st')"
      by blast
    from "2.IH"(4) [OF s [symmetric] EnterBlock refl lim c1] have "length tokens2 \<le> length tokens1" .
    moreover from "2.IH"(5) [OF s [symmetric] EnterBlock refl lim c1 [symmetric] refl refl c3]
    have "length tokens' \<le> length tokens2" .
    ultimately show ?thesis using l1 by simp
  qed
qed

termination parse_block
proof (relation "measure (\<lambda>(env, opts, config_dir, limit, ended, fname, ctx, consume, st, tokens). length tokens)",
       goal_cases)
  case 1
  show ?case by simp
next
  case 2
  then show ?case by (auto dest!: statement_length [OF sym])
next
  case 3
  then show ?case by (auto dest!: statement_length [OF sym])
next
  case 4
  then show ?case
    by (auto dest!: statement_length [OF sym] dest: parse_block_length [OF _ sym])
next
  case 5
  then show ?case by (auto dest!: statement_length [OF sym])
next
  case 6
  then show ?case
    by (auto dest!: statement_length [OF sym] dest: parse_block_length [OF _ sym])
qed

subsection \<open>The worklist\<close>

text \<open>
  \<open>lex\<close>: the file is opened when the first token is asked for, so a file that cannot
  be opened is a stream that raises before any token.
\<close>

definition lex :: "env \<Rightarrow> string \<Rightarrow> token gen" where
  "lex env filename =
     (case fs env filename of
        None \<Rightarrow> ([], Some (OSError filename None))
      | Some text \<Rightarrow> balance_braces (lex_file_object text) filename)"

text \<open>
  The body of the loop \<open>for fname, ctx in includes\<close> of \<open>parse\<close>: the \<open>try\<close> block, the
  \<open>except Exception\<close> handler, which starts a new \<open>parsing\<close> dictionary, and the append to
  \<open>payload["config"]\<close>.
\<close>

definition parse_file :: "env \<Rightarrow> opts \<Rightarrow> string \<Rightarrow> nat \<Rightarrow> run \<Rightarrow> string \<times> ctx \<Rightarrow> run" where
  "parse_file env opts config_dir limit run entry =
     (case entry of (fname, ctx) \<Rightarrow>
        (let tokens = lex env fname;
             parsing = \<lparr>parsing_file = fname, parsing_status = ''ok'', parsing_errors = [],
                        parsing_parsed = []\<rparr>
         in case parse_block env opts config_dir limit (snd tokens) fname ctx False (parsing, run)
                   (fst tokens) of
              (Inr (parsed, _), (parsing, run)) \<Rightarrow>
                run\<lparr>payload_config := payload_config run @ [parsing\<lparr>parsing_parsed := parsed\<rparr>]\<rparr>
            | (Inl e, (_, run)) \<Rightarrow>
                (case handle_error
                        (\<lparr>parsing_file = fname, parsing_status = ''failed'', parsing_errors = [],
                          parsing_parsed = []\<rparr>, run) e of
                   (parsing, run) \<Rightarrow> run\<lparr>payload_config := payload_config run @ [parsing]\<rparr>)))"

text \<open>
  The loop itself, by the index of the entry it is at: the list grows while the loop
  runs, and the loop ends when the index reaches its length. \<open>None\<close> is a loop that
  never ends.
\<close>

partial_function (option) drain ::
  "env \<Rightarrow> opts \<Rightarrow> string \<Rightarrow> nat \<Rightarrow> nat \<Rightarrow> run \<Rightarrow> run option" where
  "drain env opts config_dir limit i run =
     (if i < length (includes_list run)
      then drain env opts config_dir limit (Suc i)
             (parse_file env opts config_dir limit run (includes_list run ! i))
      else Some run)"

declare drain.simps [code]

record payload =
  status :: string
  errors :: "(string \<times> exn \<times> nat option) list"
  config :: "parsing list"

subsection \<open>Combine\<close>

text \<open>
  \<open>_perform_includes\<close>, as the list of the statements the generator yields or the
  exception that leaves it. \<open>limit\<close> is the number of included files that the nested
  generators may still enter, one inside the other, before the interpreter raises
  \<open>RecursionError\<close>. The generator replaces \<open>stmt["block"]\<close> in place; a block it has
  replaced holds no statement with an \<open>includes\<close> key, and it maps such a block to
  itself, so a statement that is reached again yields the same value.
\<close>

function perform_includes :: "nat \<Rightarrow> parsing list \<Rightarrow> node list \<Rightarrow> exn + node list"
  and perform_indices :: "nat \<Rightarrow> parsing list \<Rightarrow> nat list \<Rightarrow> exn + node list" where
  "perform_includes limit old_configs [] = Inr []"
| "perform_includes limit old_configs (Node f d l a b i c # block) =
     (case (case b of
              None \<Rightarrow> Inr None
            | Some inner \<Rightarrow> map_sum id Some (perform_includes limit old_configs inner)) of
        Inl e \<Rightarrow> Inl e
      | Inr b' \<Rightarrow>
          (case (case i of
                   None \<Rightarrow> Inr [Node f d l a b' i c]
                 | Some indices \<Rightarrow> perform_indices limit old_configs indices) of
             Inl e \<Rightarrow> Inl e
           | Inr stmts \<Rightarrow>
               (case perform_includes limit old_configs block of
                  Inl e \<Rightarrow> Inl e
                | Inr rest \<Rightarrow> Inr (stmts @ rest))))"
| "perform_indices limit old_configs [] = Inr []"
| "perform_indices limit old_configs (index # indices) =
     (if index < length old_configs
      then (case limit of
              0 \<Rightarrow> Inl RecursionError
            | Suc limit' \<Rightarrow>
                (case perform_includes limit' old_configs (parsing_parsed (old_configs ! index)) of
                   Inl e \<Rightarrow> Inl e
                 | Inr stmts \<Rightarrow>
                     (case perform_indices limit old_configs indices of
                        Inl e \<Rightarrow> Inl e
                      | Inr rest \<Rightarrow> Inr (stmts @ rest))))
      else Inl IndexError)"
  by pat_completeness auto
termination
  by (relation "measures
        [\<lambda>x. case x of Inl (limit, _, _) \<Rightarrow> limit | Inr (limit, _, _) \<Rightarrow> limit,
         \<lambda>x. case x of Inl (_, _, block) \<Rightarrow> Suc (size_list size block) | Inr (_, _, indices) \<Rightarrow> 0,
         \<lambda>x. case x of Inl (_, _, block) \<Rightarrow> 0 | Inr (_, _, indices) \<Rightarrow> length indices]")
     auto

text \<open>\<open>_combine_parsed_configs\<close>.\<close>

definition combine_parsed_configs :: "nat \<Rightarrow> payload \<Rightarrow> exn + payload" where
  "combine_parsed_configs limit old_payload =
     (case config old_payload of
        [] \<Rightarrow> Inl IndexError
      | first_config # _ \<Rightarrow>
          (case perform_includes limit (config old_payload) (parsing_parsed first_config) of
             Inl e \<Rightarrow> Inl e
           | Inr stmts \<Rightarrow>
               Inr \<lparr>status = status old_payload,
                    errors = errors old_payload,
                    config =
                      [\<lparr>parsing_file = parsing_file first_config,
                        parsing_status =
                          (if \<exists>c \<in> set (config old_payload). parsing_status c = ''failed''
                           then ''failed'' else ''ok''),
                        parsing_errors = concat (map parsing_errors (config old_payload)),
                        parsing_parsed = stmts\<rparr>]\<rparr>))"

text \<open>
  \<open>parse\<close>: \<open>None\<close> when the worklist loop never ends, \<open>Some (Inl e)\<close> when \<open>e\<close> leaves
  \<open>parse\<close>, \<open>Some (Inr payload)\<close> when it returns the payload. \<open>limit\<close> bounds the nesting
  of \<open>_parse\<close> for each file and of \<open>_perform_includes\<close>.
\<close>

definition parse :: "env \<Rightarrow> opts \<Rightarrow> nat \<Rightarrow> string \<Rightarrow> (exn + payload) option" where
  "parse env opts limit filename =
     (case drain env opts (dirname filename) limit 0
             \<lparr>payload_status = ''ok'', payload_errors = [], payload_config = [],
              includes_list = [(filename, [])], included = [(filename, 0)]\<rparr> of
        None \<Rightarrow> None
      | Some run \<Rightarrow>
          (let payload = \<lparr>status = payload_status run, errors = payload_errors run,
                          config = payload_config run\<rparr>
           in if combine opts then Some (combine_parsed_configs limit payload)
              else Some (Inr payload)))"

subsection \<open>Readable transform\<close>








section \<open>Properties\<close>

subsection \<open>The brace balancer\<close>

lemma brace_depth_simps [simp]:
  "brace_depth [] = 0"
  "brace_depth (t # ts) = brace_step t + brace_depth ts"
  "brace_depth (ts @ us) = brace_depth ts + brace_depth us"
  by (simp_all add: brace_depth_def)

lemma balance_loop_step:
  "balance_loop depth line0 filename ((tok, line, quoted) # ts) ended =
     (if depth + brace_step (tok, line, quoted) < 0
      then ([], Some (NgxParserSyntaxError reason_unexpected_rbrace filename line))
      else yield (tok, line, quoted)
             (balance_loop (depth + brace_step (tok, line, quoted)) line filename ts ended))"
  by (simp add: brace_step_def Let_def)

lemma balance_loop_passes:
  "\<forall>n \<le> length ts. 0 \<le> depth + brace_depth (take n ts) \<Longrightarrow>
   balance_loop depth line0 filename ts None =
     (ts, if 0 < depth + brace_depth ts
          then Some (NgxParserSyntaxError reason_unexpected_eof filename
                       (if ts = [] then line0 else fst (snd (last ts))))
          else None)"
proof (induction ts arbitrary: depth line0)
  case Nil
  then show ?case by simp
next
  case (Cons t ts)
  obtain tok line quoted where t: "t = (tok, line, quoted)" by (cases t)
  from Cons.prems [rule_format, of 1] have nonneg: "0 \<le> depth + brace_step t" by simp
  have rest: "\<forall>n \<le> length ts. 0 \<le> (depth + brace_step t) + brace_depth (take n ts)"
  proof (intro allI impI)
    fix n assume "n \<le> length ts"
    with Cons.prems [rule_format, of "Suc n"] show "0 \<le> (depth + brace_step t) + brace_depth (take n ts)"
      by (simp add: add.assoc)
  qed
  from Cons.IH [OF rest, of line] nonneg show ?case
    unfolding t balance_loop_step by (simp add: yield_def add.assoc)
qed

lemma balance_loop_fails:
  "\<forall>n \<le> length pre. 0 \<le> depth + brace_depth (take n pre) \<Longrightarrow>
   depth + brace_depth (pre @ [(tok, line, quoted)]) < 0 \<Longrightarrow>
   balance_loop depth line0 filename (pre @ (tok, line, quoted) # post) ended =
     (pre, Some (NgxParserSyntaxError reason_unexpected_rbrace filename line))"
proof (induction pre arbitrary: depth line0)
  case Nil
  then show ?case unfolding append_Nil balance_loop_step by simp
next
  case (Cons t pre)
  obtain tok' line' quoted' where t: "t = (tok', line', quoted')" by (cases t)
  from Cons.prems(1) [rule_format, of 1] have nonneg: "0 \<le> depth + brace_step t" by simp
  have rest: "\<forall>n \<le> length pre. 0 \<le> (depth + brace_step t) + brace_depth (take n pre)"
  proof (intro allI impI)
    fix n assume "n \<le> length pre"
    with Cons.prems(1) [rule_format, of "Suc n"]
    show "0 \<le> (depth + brace_step t) + brace_depth (take n pre)"
      by (simp add: add.assoc)
  qed
  from Cons.prems(2) have neg: "(depth + brace_step t) + brace_depth (pre @ [(tok, line, quoted)]) < 0"
    by (simp add: add.assoc)
  from Cons.IH [OF rest neg, of line'] nonneg show ?case
    unfolding t append_Cons balance_loop_step by (simp add: yield_def)
qed

text \<open>
  Claim C2. On a token stream that ends without an error of its own, the balancer
  \<^item> raises the syntax error \<open>unexpected "}"\<close> at the line of the first token that takes
    the depth of unquoted braces below zero, after yielding the tokens before it;
  \<^item> yields every token and then raises \<open>unexpected end of file, expecting "}"\<close> at the
    line of the last token, when the depth is positive at the end;
  \<^item> yields every token unchanged, in order, and returns, otherwise.
\<close>

theorem balance_braces_spec:
  "(toks = pre @ (tok, line, quoted) # post \<and> never_negative pre
      \<and> brace_depth (pre @ [(tok, line, quoted)]) < 0
    \<longrightarrow> balance_braces (toks, None) filename
          = (pre, Some (NgxParserSyntaxError reason_unexpected_rbrace filename line)))
   \<and> (never_negative toks \<and> 0 < brace_depth toks
    \<longrightarrow> balance_braces (toks, None) filename
          = (toks, Some (NgxParserSyntaxError reason_unexpected_eof filename (fst (snd (last toks))))))
   \<and> (never_negative toks \<and> brace_depth toks = 0
    \<longrightarrow> balance_braces (toks, None) filename = (toks, None))"
proof (intro conjI impI)
  assume "toks = pre @ (tok, line, quoted) # post \<and> never_negative pre
      \<and> brace_depth (pre @ [(tok, line, quoted)]) < 0"
  then show "balance_braces (toks, None) filename
          = (pre, Some (NgxParserSyntaxError reason_unexpected_rbrace filename line))"
    using balance_loop_fails [of pre 0 tok line quoted 0 filename post None]
    by (simp add: balance_braces_def never_negative_def)
next
  assume a: "never_negative toks \<and> 0 < brace_depth toks"
  then have "toks \<noteq> []" by auto
  with a show "balance_braces (toks, None) filename
          = (toks, Some (NgxParserSyntaxError reason_unexpected_eof filename (fst (snd (last toks)))))"
    using balance_loop_passes [of toks 0 0 filename]
    by (simp add: balance_braces_def never_negative_def)
next
  assume "never_negative toks \<and> brace_depth toks = 0"
  then show "balance_braces (toks, None) filename = (toks, None)"
    using balance_loop_passes [of toks 0 0 filename]
    by (simp add: balance_braces_def never_negative_def)
qed

lemma never_negative_code: "never_negative ts = list_all (\<lambda>n. 0 \<le> brace_depth (take n ts)) [0..<Suc (length ts)]"
  by (auto simp: never_negative_def list_all_iff less_Suc_eq_le)

theorem balance_braces_spec_witness:
  "balance_braces ([(''a'', 1, False), (''}'', 2, False), (''b'', 3, False)], None) ''f''
     = ([(''a'', 1, False)], Some (NgxParserSyntaxError reason_unexpected_rbrace ''f'' 2))
   \<and> balance_braces ([(''a'', 1, False), (''{'', 2, False), (''b'', 3, False)], None) ''f''
     = ([(''a'', 1, False), (''{'', 2, False), (''b'', 3, False)],
        Some (NgxParserSyntaxError reason_unexpected_eof ''f'' 3))
   \<and> balance_braces ([(''a'', 1, False), (''{'', 2, False), (''}'', 3, False)], None) ''f''
     = ([(''a'', 1, False), (''{'', 2, False), (''}'', 3, False)], None)"
proof -
  have n1: "never_negative [(''a'', 1, False)]"
    by (simp add: never_negative_code brace_step_def upt_rec)
  have n2: "never_negative [(''a'', 1, False), (''{'', 2, False), (''b'', 3, False)]"
    by (simp add: never_negative_code brace_step_def upt_rec)
  have n3: "never_negative [(''a'', 1, False), (''{'', 2, False), (''}'', 3, False)]"
    by (simp add: never_negative_code brace_step_def upt_rec)
  show ?thesis
    using balance_braces_spec [of "[(''a'', 1, False), (''}'', 2, False), (''b'', 3, False)]"
            "[(''a'', 1, False)]" "''}''" 2 False "[(''b'', 3, False)]" "''f''"]
          balance_braces_spec [of "[(''a'', 1, False), (''{'', 2, False), (''b'', 3, False)]"
            "[]" "''x''" 0 False "[]" "''f''"]
          balance_braces_spec [of "[(''a'', 1, False), (''{'', 2, False), (''}'', 3, False)]"
            "[]" "''x''" 0 False "[]" "''f''"]
          n1 n2 n3
    by (simp add: brace_step_def)
qed

subsection \<open>The lexer at a malformed end of the input\<close>

lemma yield_simps [simp]: "fst (yield x g) = x # fst g" "snd (yield x g) = snd g"
  by (simp_all add: yield_def)

lemma iterescape_gen_raises:
  "snd (iterescape_gen text) = None \<or> snd (iterescape_gen text) = Some RuntimeError"
  by (induction "text" rule: iterescape_gen.induct) (auto split: list.splits)

lemma iterescape_gen_yields:
  "(snd (iterescape_gen text) = None \<and> concat (fst (iterescape_gen text)) = text)
   \<or> (snd (iterescape_gen text) = Some RuntimeError
       \<and> concat (fst (iterescape_gen text)) @ [backslash] = text)"
  by (induction "text" rule: iterescape_gen.induct) (auto split: list.splits)

text \<open>A generator body that ends by returning or by the \<open>RuntimeError\<close> of PEP 479.\<close>

definition silent :: "'a gen \<Rightarrow> bool" where
  "silent g = (snd g = None \<or> snd g = Some RuntimeError)"

lemma silent_simps [simp]:
  "silent (xs, None)" "silent (xs, Some RuntimeError)" "silent (yield x g) = silent g"
  by (simp_all add: silent_def)

lemma lex_loop_silent:
  "silent (lex_loop token token_line ntd its)"
  "silent (lex_char token token_line ntd i its)"
proof (induction token token_line ntd its and token token_line ntd i its rule: lex_loop_lex_char.induct)
  case (1 token token_line next_token_is_directive)
  then show ?case by simp
next
  case (2 token token_line next_token_is_directive char line its)
  then show ?case
    by (simp split: option.split prod.split)
next
  case (3 token token_line ntd char line its)
  show ?case
  proof (cases "token = [] \<and> char = ''#''")
    case True
    show ?thesis
    proof (cases "read_comment token char its")
      case None
      with True show ?thesis by (subst lex_char.simps) simp
    next
      case (Some r)
      obtain tok its' where r: "r = (tok, its')" by (cases r)
      from "3.IH"(1) [OF True Some r [symmetric]] True Some r show ?thesis
        by (subst lex_char.simps) simp
    qed
  next
    case False
    let ?E = "if token \<noteq> [] \<and> last token = CHR ''$'' \<and> char = ''{''
              then map_option (\<lambda>(t, i, r). (t, i, r, False)) (read_expansion token (char, line) its)
              else Some (token, (char, line), its, ntd)"
    show ?thesis
    proof (cases ?E)
      case None
      show ?thesis
        by (subst lex_char.simps, simp only: if_not_P [OF False], simp only: Let_def,
            simp only: None, simp only: option.case silent_simps)
    next
      case (Some x2)
      obtain tok c l its' n where x2: "x2 = (tok, (c, l), its', n)" by (cases x2) auto
      note E = Some [unfolded x2]
      note ih = "3.IH"(2-6) [OF False refl E refl refl refl refl]
      have "lex_char token token_line ntd (char, line) its =
              (if c = [CHR 0x22] \<or> c = [CHR 0x27]
                 then (if tok \<noteq> []
                       then lex_loop (tok @ c) (if token = [] then line else token_line) n its'
                       else (case read_quoted c tok its' of
                               None \<Rightarrow> ([], Some RuntimeError)
                             | Some (token', its'') \<Rightarrow>
                                 yield (token', (if token = [] then line else token_line), True)
                                   (lex_loop [] (if token = [] then line else token_line) False its'')))
                 else if c = ''{'' \<or> c = ''}'' \<or> c = '';''
                 then (if tok \<noteq> []
                       then yield (tok, (if token = [] then line else token_line), False)
                              (yield (c, l, False)
                                 (lex_loop [] (if token = [] then line else token_line) True its'))
                       else yield (c, l, False)
                              (lex_loop [] (if token = [] then line else token_line) True its'))
                 else lex_loop (tok @ c) (if token = [] then line else token_line) n its')"
        by (subst lex_char.simps, simp only: if_not_P [OF False], simp only: Let_def,
            simp only: E, simp only: option.case prod.case)
      note eq = this
      show ?thesis
      proof (cases "c = [CHR 0x22] \<or> c = [CHR 0x27]")
        case quote: True
        show ?thesis
        proof (cases "tok = []")
          case False
          from ih(1) [OF quote False] show ?thesis
            by (simp only: eq if_P [OF quote] if_P [OF False])
        next
          case True
          show ?thesis
          proof (cases "read_quoted c tok its'")
            case None
            show ?thesis
              by (simp only: eq if_P [OF quote] True None [unfolded True] option.case silent_simps simp_thms
                    if_True if_False)
          next
            case (Some r)
            obtain t' r' where r: "r = (t', r')" by (cases r)
            from True have nn: "\<not> tok \<noteq> []" by simp
            from ih(2) [OF quote nn Some r [symmetric]] show ?thesis
              by (simp only: eq if_P [OF quote] True Some [unfolded True] r option.case prod.case silent_simps
                    simp_thms if_True if_False)
          qed
        qed
      next
        case no_quote: False
        show ?thesis
        proof (cases "c = ''{'' \<or> c = ''}'' \<or> c = '';''")
          case special: True
          show ?thesis
          proof (cases "tok = []")
            case False
            from ih(3) [OF no_quote special False] show ?thesis
              by (simp only: eq if_not_P [OF no_quote] if_P [OF special] if_P [OF False]
                    silent_simps)
          next
            case True
            from True have nn: "\<not> tok \<noteq> []" by simp
            from ih(4) [OF no_quote special nn] show ?thesis
              by (simp only: eq if_not_P [OF no_quote] if_P [OF special] True silent_simps
                    simp_thms if_True if_False)
          qed
        next
          case False
          from ih(5) [OF no_quote False] show ?thesis
            by (simp only: eq if_not_P [OF no_quote] if_not_P [OF False])
        qed
      qed
    qed
  qed
qed

lemma read_quoted_unterminated:
  "\<forall>(c, l) \<in> set its. c \<noteq> quote \<Longrightarrow> read_quoted quote token its = None"
  by (induction its arbitrary: token) auto

lemma iterescape_gen_append:
  "snd (iterescape_gen s) = None \<Longrightarrow>
   iterescape_gen (s @ t) = (fst (iterescape_gen s) @ fst (iterescape_gen t), snd (iterescape_gen t))"
proof (induction s rule: iterescape_gen.induct)
  case 1
  then show ?case by simp
next
  case (2 c cs)
  show ?case
  proof (cases "c = backslash")
    case False
    with 2 show ?thesis by (simp add: yield_def)
  next
    case True
    show ?thesis
    proof (cases cs)
      case Nil
      with True "2.prems" show ?thesis by simp
    next
      case (Cons d ds)
      with True 2 show ?thesis by (simp add: yield_def)
    qed
  qed
qed

lemma iterescape_gen_complete:
  "snd (iterescape_gen s) = None \<longleftrightarrow> even (length (takeWhile (\<lambda>c. c = backslash) (rev s)))"
proof (induction s rule: iterescape_gen.induct)
  case 1
  then show ?case by simp
next
  case (2 c cs)
  have all: "takeWhile (\<lambda>c. c = backslash) (rev xs) = rev xs" if "\<forall>x \<in> set xs. x = backslash" for xs
    using that by (simp add: takeWhile_eq_all_conv)
  show ?case
  proof (cases "c = backslash")
    case False
    with 2 show ?thesis by (simp add: takeWhile_append all)
  next
    case True
    show ?thesis
    proof (cases cs)
      case Nil
      with True show ?thesis by simp
    next
      case (Cons d ds)
      with True 2 show ?thesis by (auto simp: takeWhile_append all)
    qed
  qed
qed

lemma skip_space_quote:
  "\<forall>(c, l') \<in> set ws. isspace c \<Longrightarrow> \<not> isspace (fst i) \<Longrightarrow>
   skip_space (ws @ i # its) = Some (i, its)"
  by (induction ws) (cases i, auto)

lemma read_quoted_closed:
  "\<forall>(c, l') \<in> set its. c \<noteq> quote \<Longrightarrow>
   read_quoted quote token (its @ (quote, l) # rest)
     = Some (token @ concat (map (\<lambda>(c, l'). if c = backslash # quote then quote else c) its), rest)"
  by (induction its arbitrary: token) auto

lemma lex_char_open_quote:
  assumes "quote = CHR 0x22 \<or> quote = CHR 0x27"
  shows "lex_char [] token_line ntd ([quote], line) its =
           (case read_quoted [quote] [] its of
              None \<Rightarrow> ([], Some RuntimeError)
            | Some (token', its') \<Rightarrow> yield (token', line, True) (lex_loop [] line False its'))"
proof -
  from assms have ns: "[quote] \<noteq> ''#''" by auto
  from assms have q: "[quote] = [CHR 0x22] \<or> [quote] = [CHR 0x27]" by simp
  show ?thesis
    by (subst lex_char.simps, simp only: ns simp_thms if_False Let_def if_True option.case prod.case
          if_P [OF q])
qed

lemma balance_loop_returns:
  "0 \<le> depth \<Longrightarrow>
   snd (balance_loop depth line0 filename ts None) = None \<longleftrightarrow>
     (\<forall>n \<le> length ts. 0 \<le> depth + brace_depth (take n ts)) \<and> depth + brace_depth ts = 0"
proof (induction ts arbitrary: depth line0)
  case Nil
  then show ?case by auto
next
  case (Cons t ts)
  obtain tok line quoted where t: "t = (tok, line, quoted)" by (cases t)
  show ?case
  proof (cases "depth + brace_step t < 0")
    case True
    then have "\<not> (\<forall>n \<le> length (t # ts). 0 \<le> depth + brace_depth (take n (t # ts)))"
      by (auto intro!: exI [of _ 1])
    with True show ?thesis unfolding t balance_loop_step by simp
  next
    case False
    then have nn: "0 \<le> depth + brace_step t" by simp
    have "(\<forall>n \<le> length (t # ts). 0 \<le> depth + brace_depth (take n (t # ts)))
            \<longleftrightarrow> (\<forall>n \<le> length ts. 0 \<le> (depth + brace_step t) + brace_depth (take n ts))"
    proof
      assume a: "\<forall>n \<le> length (t # ts). 0 \<le> depth + brace_depth (take n (t # ts))"
      show "\<forall>n \<le> length ts. 0 \<le> (depth + brace_step t) + brace_depth (take n ts)"
      proof (intro allI impI)
        fix n assume "n \<le> length ts"
        with a [rule_format, of "Suc n"] show "0 \<le> (depth + brace_step t) + brace_depth (take n ts)"
          by (simp add: add.assoc)
      qed
    next
      assume a: "\<forall>n \<le> length ts. 0 \<le> (depth + brace_step t) + brace_depth (take n ts)"
      show "\<forall>n \<le> length (t # ts). 0 \<le> depth + brace_depth (take n (t # ts))"
      proof (intro allI impI)
        fix n assume n: "n \<le> length (t # ts)"
        show "0 \<le> depth + brace_depth (take n (t # ts))"
        proof (cases n)
          case 0
          with Cons.prems show ?thesis by simp
        next
          case (Suc m)
          with n a [rule_format, of m] show ?thesis by (simp add: add.assoc)
        qed
      qed
    qed
    with Cons.IH [OF nn, of line] False show ?thesis
      unfolding t balance_loop_step by (simp add: add.assoc)
  qed
qed
lemma lex_char_unterminated:
  assumes "quote = CHR 0x22 \<or> quote = CHR 0x27" and "\<forall>(c, l') \<in> set its. c \<noteq> [quote]"
  shows "lex_char [] token_line ntd ([quote], ln) its = ([], Some RuntimeError)"
  by (simp add: lex_char_open_quote [OF assms(1)] read_quoted_unterminated [OF assms(2)])

lemma lex_loop_space_unterminated:
  assumes q: "quote = CHR 0x22 \<or> quote = CHR 0x27" and u: "\<forall>(c, l') \<in> set its. c \<noteq> [quote]"
    and ne: "ws \<noteq> []" and sp: "\<forall>(c, l') \<in> set ws. isspace c"
  shows "lex_loop token token_line ntd (ws @ ([quote], ln) # its)
           = (if token \<noteq> [] then [(token, token_line, False)] else [], Some RuntimeError)"
proof -
  from ne obtain w l ws' where ws: "ws = (w, l) # ws'" by (cases ws) auto
  with sp have w: "isspace w" by simp
  from q have "\<not> isspace (fst ([quote], ln))" by (auto simp: isspace_def isspace_char_def)
  from skip_space_quote [OF sp this]
  have sk: "skip_space ((w, l) # ws' @ ([quote], ln) # its) = Some (([quote], ln), its)"
    by (simp add: ws)
  have "lex_loop token token_line ntd ((w, l) # ws' @ ([quote], ln) # its)
          = (if token \<noteq> []
             then yield (token, token_line, False) (lex_char [] token_line False ([quote], ln) its)
             else lex_char token token_line ntd ([quote], ln) its)"
    by (simp only: lex_loop.simps if_P [OF w] sk option.case prod.case)
  then show ?thesis
    by (auto simp: ws lex_char_unterminated [OF q u] yield_def)
qed

text \<open>
  Claim C3, as amended. Neither malformed ending makes the lexer raise: the decorator
  \<open>fix_pep_479\<close> keeps what \<open>_iterescape\<close> and \<open>_lex_file_object\<close> yield and turns the
  failed \<open>next\<close> into a plain end of the generator.
  \<^item> A backslash that is the last character of the input and is not itself escaped (the
    run of backslashes before it has even length) is dropped: \<open>_iterescape\<close> and
    \<open>_lex_file_object\<close> give what they give for the input without it. Followed by a
    character \<open>c\<close> it would be one item with it.
  \<^item> When the lexer reads a quote at the start of a token and no later item is that
    quote, it yields nothing more. After white space, the token that was being read is
    yielded first and is the last of the stream. A string that is closed is one quoted
    token, and the loop goes on after it.
  \<^item> \<open>lex\<close> is the brace balancer run on that stream: it ends without an error exactly
    when the braces of the tokens that are left balance, and then yields all of them.
\<close>

theorem lexer_truncates_silently:
  "iterescape input = (fst (iterescape_gen input), None)
   \<and> lex_file_object input
       = (fst (lex_loop [] 0 True (iterlinecount 1 (fst (iterescape input)))), None)
   \<and> (even (length (takeWhile (\<lambda>c. c = backslash) (rev input)))
        \<longrightarrow> concat (fst (iterescape input)) = input
            \<and> iterescape (input @ [backslash]) = iterescape input
            \<and> lex_file_object (input @ [backslash]) = lex_file_object input
            \<and> iterescape (input @ [backslash, c]) = (fst (iterescape input) @ [[backslash, c]], None))
   \<and> ((quote = CHR 0x22 \<or> quote = CHR 0x27) \<and> (\<forall>(c, l') \<in> set its. c \<noteq> [quote])
        \<longrightarrow> lex_char [] token_line ntd ([quote], ln) its = ([], Some RuntimeError)
            \<and> (ws \<noteq> [] \<and> (\<forall>(c, l') \<in> set ws. isspace c)
                 \<longrightarrow> lex_loop token token_line ntd (ws @ ([quote], ln) # its)
                     = (if token \<noteq> [] then [(token, token_line, False)] else [],
                        Some RuntimeError))
            \<and> lex_char [] token_line ntd ([quote], ln) (its @ ([quote], ln2) # rest)
                = yield (concat (map (\<lambda>(c, l'). if c = [backslash, quote] then [quote] else c) its),
                         ln, True)
                    (lex_loop [] ln False rest))
   \<and> (fs e fname = Some input
        \<longrightarrow> lex e fname = balance_braces (fst (lex_file_object input), None) fname
            \<and> (snd (lex e fname) = None
                 \<longleftrightarrow> never_negative (fst (lex_file_object input))
                     \<and> brace_depth (fst (lex_file_object input)) = 0)
            \<and> (snd (lex e fname) = None \<longrightarrow> fst (lex e fname) = fst (lex_file_object input)))"
proof -
  have ie: "iterescape s = (fst (iterescape_gen s), None)" for s
    using iterescape_gen_raises [of s] by (auto simp: iterescape_def fix_pep_479_def)
  have lf: "lex_file_object s
              = (fst (lex_loop [] 0 True (iterlinecount 1 (fst (iterescape s)))), None)" for s
    using lex_loop_silent(1) [of "[]" 0 True "iterlinecount 1 (fst (iterescape s))"]
    by (auto simp: lex_file_object_def fix_pep_479_def silent_def)
  have bs: "concat (fst (iterescape input)) = input
            \<and> iterescape (input @ [backslash]) = iterescape input
            \<and> lex_file_object (input @ [backslash]) = lex_file_object input
            \<and> iterescape (input @ [backslash, c]) = (fst (iterescape input) @ [[backslash, c]], None)"
    if "even (length (takeWhile (\<lambda>c. c = backslash) (rev input)))"
  proof -
    from that have n: "snd (iterescape_gen input) = None" by (simp add: iterescape_gen_complete)
    with iterescape_gen_yields [of input] have c: "concat (fst (iterescape input)) = input"
      by (simp add: ie)
    have d: "iterescape (input @ [backslash]) = iterescape input"
      by (simp add: ie iterescape_gen_append [OF n])
    have p: "iterescape (input @ [backslash, c]) = (fst (iterescape input) @ [[backslash, c]], None)"
      by (simp add: ie iterescape_gen_append [OF n] yield_def)
    from c d p show ?thesis by (simp add: lf)
  qed
  have qu: "lex_char [] token_line ntd ([quote], ln) its = ([], Some RuntimeError)
            \<and> (ws \<noteq> [] \<and> (\<forall>(c, l') \<in> set ws. isspace c)
                 \<longrightarrow> lex_loop token token_line ntd (ws @ ([quote], ln) # its)
                     = (if token \<noteq> [] then [(token, token_line, False)] else [],
                        Some RuntimeError))
            \<and> lex_char [] token_line ntd ([quote], ln) (its @ ([quote], ln2) # rest)
                = yield (concat (map (\<lambda>(c, l'). if c = [backslash, quote] then [quote] else c) its),
                         ln, True)
                    (lex_loop [] ln False rest)"
    if "(quote = CHR 0x22 \<or> quote = CHR 0x27) \<and> (\<forall>(c, l') \<in> set its. c \<noteq> [quote])"
  proof -
    from that have q: "quote = CHR 0x22 \<or> quote = CHR 0x27"
      and u: "\<forall>(c, l') \<in> set its. c \<noteq> [quote]" by simp_all
    have 1: "lex_char [] token_line ntd ([quote], ln) its = ([], Some RuntimeError)"
      by (rule lex_char_unterminated [OF q u])
    have 2: "lex_loop token token_line ntd (ws @ ([quote], ln) # its)
               = (if token \<noteq> [] then [(token, token_line, False)] else [], Some RuntimeError)"
      if "ws \<noteq> [] \<and> (\<forall>(c, l') \<in> set ws. isspace c)"
      using that lex_loop_space_unterminated [OF q u] by blast
    have 3: "lex_char [] token_line ntd ([quote], ln) (its @ ([quote], ln2) # rest)
                = yield (concat (map (\<lambda>(c, l'). if c = [backslash, quote] then [quote] else c) its),
                         ln, True)
                    (lex_loop [] ln False rest)"
      by (simp add: lex_char_open_quote [OF q] read_quoted_closed [OF u])
    from 1 2 3 show ?thesis by blast
  qed
  have lx: "lex e fname = balance_braces (fst (lex_file_object input), None) fname
            \<and> (snd (lex e fname) = None
                 \<longleftrightarrow> never_negative (fst (lex_file_object input))
                     \<and> brace_depth (fst (lex_file_object input)) = 0)
            \<and> (snd (lex e fname) = None \<longrightarrow> fst (lex e fname) = fst (lex_file_object input))"
    if "fs e fname = Some input"
  proof -
    let ?toks = "fst (lex_file_object input)"
    from that have 1: "lex e fname = balance_braces (?toks, None) fname"
      by (simp add: lex_def lf [of input])
    have 2: "snd (lex e fname) = None \<longleftrightarrow> never_negative ?toks \<and> brace_depth ?toks = 0"
      using balance_loop_returns [of 0 0 fname ?toks]
      by (simp add: 1 balance_braces_def never_negative_def)
    have 3: "fst (lex e fname) = ?toks" if "snd (lex e fname) = None"
    proof -
      from that 2 have "never_negative ?toks" and "brace_depth ?toks = 0" by simp_all
      then show ?thesis
        using balance_loop_passes [of ?toks 0 0 fname]
        by (simp add: 1 balance_braces_def never_negative_def)
    qed
    from 1 2 3 show ?thesis by blast
  qed
  from ie [of input] lf [of input] bs qu lx show ?thesis by blast
qed

theorem lexer_truncates_silently_witness:
  "iterescape (''user www;'' @ [backslash]) = iterescape ''user www;''
   \<and> lex_file_object (''user www;'' @ [backslash])
       = ([(''user'', 1, False), (''www'', 1, False), ('';'', 1, False)], None)
   \<and> lex_loop ''pid'' 1 False [('' '', 1), ([CHR 0x22], 1), (''a'', 1), ('';'', 1)]
       = ([(''pid'', 1, False)], Some RuntimeError)
   \<and> lex_char [] 1 False ([CHR 0x22], 1) [(''a'', 1), ('';'', 1), ([CHR 0x22], 1), ('';'', 1)]
       = ([(''a;'', 1, True), ('';'', 1, False)], None)
   \<and> lex \<lparr>fs = (\<lambda>p. if p = ''nginx.conf'' then Some ''user www;'' else None),
          glob_glob = (\<lambda>p. [])\<rparr> ''nginx.conf''
       = ([(''user'', 1, False), (''www'', 1, False), ('';'', 1, False)], None)
   \<and> lex \<lparr>fs = (\<lambda>p. if p = ''nginx.conf''
                      then Some (''events { worker_connections '' @ [CHR 0x22] @ ''1024; }'')
                      else None),
          glob_glob = (\<lambda>p. [])\<rparr> ''nginx.conf''
       = ([(''events'', 1, False), (''{'', 1, False), (''worker_connections'', 1, False)],
          Some (NgxParserSyntaxError reason_unexpected_eof ''nginx.conf'' 1))"
proof -
  have l1: "lex_file_object ''user www;''
              = ([(''user'', 1, False), (''www'', 1, False), ('';'', 1, False)], None)"
    by code_simp
  have l2: "lex_file_object (''events { worker_connections '' @ [CHR 0x22] @ ''1024; }'')
              = ([(''events'', 1, False), (''{'', 1, False), (''worker_connections'', 1, False)], None)"
    by code_simp
  have b2: "balance_braces
              ([(''events'', 1, False), (''{'', 1, False), (''worker_connections'', 1, False)], None)
              ''nginx.conf''
            = ([(''events'', 1, False), (''{'', 1, False), (''worker_connections'', 1, False)],
               Some (NgxParserSyntaxError reason_unexpected_eof ''nginx.conf'' 1))"
    by (simp add: balance_braces_def yield_def)
  have n1: "never_negative [(''user'', 1, False), (''www'', 1, False), ('';'', 1, False)]"
    by (simp add: never_negative_code brace_step_def upt_rec)
  have sp: "isspace '' ''" by (simp add: isspace_def isspace_char_def)
  have ev: "even (length (takeWhile (\<lambda>c. c = backslash) (rev ''user www;'')))"
    by (simp add: backslash_def)
  have lp: "lex_loop [] 1 False [('';'', 1)] = ([('';'', 1, False)], None)"
    by (simp add: lex_char.simps yield_def isspace_def isspace_char_def)
  have qh: "(CHR 0x22 = CHR 0x22 \<or> CHR 0x22 = CHR 0x27)
            \<and> (\<forall>(c, l') \<in> set [(''a'', 1 :: nat), ('';'', 1)]. c \<noteq> [CHR 0x22])"
    by simp
  have wh: "[('' '', 1 :: nat)] \<noteq> [] \<and> (\<forall>(c, l') \<in> set [('' '', 1 :: nat)]. isspace c)"
    by (simp add: sp)
  have f1: "fs \<lparr>fs = (\<lambda>p. if p = ''nginx.conf'' then Some ''user www;'' else None),
               glob_glob = (\<lambda>p. [])\<rparr> ''nginx.conf'' = Some ''user www;''"
    by simp
  have f2: "fs \<lparr>fs = (\<lambda>p. if p = ''nginx.conf''
                           then Some (''events { worker_connections '' @ [CHR 0x22] @ ''1024; }'')
                           else None),
               glob_glob = (\<lambda>p. [])\<rparr> ''nginx.conf''
              = Some (''events { worker_connections '' @ [CHR 0x22] @ ''1024; }'')"
    by simp
  note t1 = lexer_truncates_silently
            [where input = "''user www;''" and c = "CHR ''n''" and quote = "CHR 0x22"
               and its = "[(''a'', 1), ('';'', 1)]" and token_line = 1 and ntd = False and ln = 1
               and ws = "[('' '', 1)]" and token = "''pid''" and ?ln2.0 = 1 and rest = "[('';'', 1)]"
               and e = "\<lparr>fs = (\<lambda>p. if p = ''nginx.conf'' then Some ''user www;'' else None),
                          glob_glob = (\<lambda>p. [])\<rparr>"
               and fname = "''nginx.conf''"]
  note t2 = lexer_truncates_silently
            [where input = "''events { worker_connections '' @ [CHR 0x22] @ ''1024; }''"
               and c = "CHR ''n''" and quote = "CHR 0x22"
               and its = "[(''a'', 1), ('';'', 1)]" and token_line = 1 and ntd = False and ln = 1
               and ws = "[('' '', 1)]" and token = "''pid''" and ?ln2.0 = 1 and rest = "[('';'', 1)]"
               and e = "\<lparr>fs = (\<lambda>p. if p = ''nginx.conf''
                                    then Some (''events { worker_connections '' @ [CHR 0x22] @ ''1024; }'')
                                    else None),
                          glob_glob = (\<lambda>p. [])\<rparr>"
               and fname = "''nginx.conf''"]
  note bsl = t1 [THEN conjunct2, THEN conjunct2, THEN conjunct1, THEN mp, OF ev]
  note qt = t1 [THEN conjunct2, THEN conjunct2, THEN conjunct2, THEN conjunct1, THEN mp, OF qh]
  note qw = qt [THEN conjunct2, THEN conjunct1, THEN mp, OF wh]
  note qc = qt [THEN conjunct2, THEN conjunct2]
  note x1 = t1 [THEN conjunct2, THEN conjunct2, THEN conjunct2, THEN conjunct2, THEN mp, OF f1]
  note x2 = t2 [THEN conjunct2, THEN conjunct2, THEN conjunct2, THEN conjunct2, THEN mp, OF f2]
  have r1: "iterescape (''user www;'' @ [backslash]) = iterescape ''user www;''"
    using bsl by blast
  have r2: "lex_file_object (''user www;'' @ [backslash])
       = ([(''user'', 1, False), (''www'', 1, False), ('';'', 1, False)], None)"
    using bsl l1 by simp
  have r3: "lex_loop ''pid'' 1 False [('' '', 1), ([CHR 0x22], 1), (''a'', 1), ('';'', 1)]
       = ([(''pid'', 1, False)], Some RuntimeError)"
    using qw by simp
  have r4: "lex_char [] 1 False ([CHR 0x22], 1) [(''a'', 1), ('';'', 1), ([CHR 0x22], 1), ('';'', 1)]
       = ([(''a;'', 1, True), ('';'', 1, False)], None)"
    using qc [unfolded lp] by (simp add: yield_def backslash_def)
  have r5: "lex \<lparr>fs = (\<lambda>p. if p = ''nginx.conf'' then Some ''user www;'' else None),
          glob_glob = (\<lambda>p. [])\<rparr> ''nginx.conf''
       = ([(''user'', 1, False), (''www'', 1, False), ('';'', 1, False)], None)"
  proof -
    let ?l = "lex \<lparr>fs = (\<lambda>p. if p = ''nginx.conf'' then Some ''user www;'' else None),
                   glob_glob = (\<lambda>p. [])\<rparr> ''nginx.conf''"
    have bd: "brace_depth [(''user'', 1, False), (''www'', 1, False), ('';'', 1, False)] = 0"
      by (simp add: brace_step_def)
    from x1 have "snd ?l = None \<longleftrightarrow>
        never_negative (fst (lex_file_object ''user www;''))
        \<and> brace_depth (fst (lex_file_object ''user www;'')) = 0"
      by blast
    with n1 bd have s: "snd ?l = None" by (simp only: l1 fst_conv simp_thms)
    with x1 have "fst ?l = fst (lex_file_object ''user www;'')" by blast
    with s show ?thesis by (simp only: l1 fst_conv prod_eq_iff snd_conv simp_thms)
  qed
  have r6: "lex \<lparr>fs = (\<lambda>p. if p = ''nginx.conf''
                      then Some (''events { worker_connections '' @ [CHR 0x22] @ ''1024; }'')
                      else None),
          glob_glob = (\<lambda>p. [])\<rparr> ''nginx.conf''
       = ([(''events'', 1, False), (''{'', 1, False), (''worker_connections'', 1, False)],
          Some (NgxParserSyntaxError reason_unexpected_eof ''nginx.conf'' 1))"
    using x2 [THEN conjunct1] by (simp only: l2 fst_conv b2)
  from r1 r2 r3 r4 r5 r6 show ?thesis by blast
qed

text \<open>
  The claim as stated fails: \<open>lex\<close> on a file that ends in a backslash, and on a file
  that ends inside a quoted string, yields the tokens before that point and ends
  without any error.
\<close>

theorem lex_truncates_silently_counterexample:
  "lex \<lparr>fs = (\<lambda>p. if p = ''nginx.conf'' then Some (''user www;'' @ [backslash]) else None),
        glob_glob = (\<lambda>p. [])\<rparr> ''nginx.conf''
     = ([(''user'', 1, False), (''www'', 1, False), ('';'', 1, False)], None)
   \<and> lex \<lparr>fs = (\<lambda>p. if p = ''nginx.conf'' then Some (''user www; pid '' @ [CHR 0x22] @ ''/run/nginx.pid;'')
                      else None),
          glob_glob = (\<lambda>p. [])\<rparr> ''nginx.conf''
     = ([(''user'', 1, False), (''www'', 1, False), ('';'', 1, False), (''pid'', 1, False)], None)"
  by code_simp

subsection \<open>The message of a rejected statement\<close>

text \<open>
  The loop leaves in \<open>reason\<close> the value of the last mask it examines; over
  \<open>reversed(masks)\<close> that is the first mask of the declaration.
\<close>

lemma check_masks_rejected:
  "check_masks term args reason masks = Rejected reason' \<longleftrightarrow>
     (\<forall>msk \<in> set masks. check_mask term args msk \<noteq> None)
     \<and> reason' = (if masks = [] then reason else check_mask term args (last masks))"
  by (induction masks arbitrary: reason) (auto split: option.splits)

lemma analyze_reports_first_declared_mask:
  assumes "CONTEXTS ctx = Some ctx_mask" and "DIRECTIVES (stmt_directive stmt) = Some all_masks"
    and "masks = (if cctx then filter (\<lambda>msk. msk AND ctx_mask \<noteq> 0) all_masks else all_masks)"
    and "masks \<noteq> []" and "cargs"
    and "\<forall>msk \<in> set masks. check_mask term (stmt_args stmt) msk \<noteq> None"
    and "py_format (the (check_mask term (stmt_args stmt) (hd masks))) (stmt_directive stmt) = Some message"
  shows "analyze fname stmt term ctx strct cctx cargs
           = Some (NgxParserDirectiveArgumentsError message fname (stmt_line stmt))"
proof -
  from assms(4,6) have "check_masks term (stmt_args stmt) None (rev masks)
          = Rejected (check_mask term (stmt_args stmt) (hd masks))"
    by (simp add: check_masks_rejected last_rev)
  moreover from assms(4,6) obtain r where "check_mask term (stmt_args stmt) (hd masks) = Some r"
    by (cases masks) auto
  ultimately show ?thesis using assms
    by (auto simp: analyze_def split: if_splits)
qed

lemmas format_defs =
  py_format_def format_arg_def parse_conversion_def read_width_def read_precision_def
  skip_length_modifier_def render_conversion_def is_digit_def pad_def

lemma DIRECTIVES_gzip:
  "DIRECTIVES ''gzip''
     = Some [NGX_HTTP_MAIN_CONF OR NGX_HTTP_SRV_CONF OR NGX_HTTP_LOC_CONF OR NGX_CONF_FLAG]"
  by (simp add: DIRECTIVES_def)

lemma CONTEXTS_http: "CONTEXTS [''http''] = Some NGX_HTTP_MAIN_CONF"
  by (simp add: CONTEXTS_def)

lemma check_mask_gzip_percent:
  "check_mask '';'' [''100%'']
     (NGX_HTTP_MAIN_CONF OR NGX_HTTP_SRV_CONF OR NGX_HTTP_LOC_CONF OR NGX_CONF_FLAG)
     = Some (reason_invalid_flag ''100%'')"
  by (simp add: check_mask_def NGX_defs valid_flag_def lower_char_def)

lemma py_format_gzip_percent: "py_format (reason_invalid_flag ''100%'') ''gzip'' = None"
  by (simp add: reason_invalid_flag_def format_defs)

text \<open>
  Claim C4. \<open>analyze\<close> formats the reason twice: the flag message is built from
  \<open>args[0]\<close> first, and the result is then used as the format string for the directive
  name. For \<open>gzip 100%;\<close> in the \<open>http\<close> context the only mask rejects the statement,
  and the second formatting fails on the \<open>%\<close> of the argument: what leaves \<open>analyze\<close> is
  the error of the formatting, not a \<open>NgxParserDirectiveArgumentsError\<close>.
\<close>

theorem analyze_flag_percent_raises_format_error:
  "analyze ''nginx.conf'' (Node None ''gzip'' 3 [''100%''] None None None) '';'' [''http'']
     False True True = Some FormatError"
proof -
  have "(NGX_HTTP_MAIN_CONF OR NGX_HTTP_SRV_CONF OR NGX_HTTP_LOC_CONF OR NGX_CONF_FLAG)
          AND NGX_HTTP_MAIN_CONF \<noteq> 0"
    by (simp add: NGX_defs)
  then show ?thesis
    unfolding analyze_def
    by (simp add: DIRECTIVES_gzip CONTEXTS_http check_mask_gzip_percent py_format_gzip_percent)
qed

subsection \<open>The readable transform\<close>






end
